theory Spec2Isabelle
  imports Complex_Main "HOL-Library.Sublist"
begin

section \<open>The web agent service (src/services/WebAgentService.ts)\<close>

subsection \<open>Values, errors and the log of external interactions\<close>

text \<open>
  A thrown JavaScript value is an \<open>Error\<close> (or \<open>TypeError\<close>) object carrying its
  message. A promise
  that rejects is \<open>Inl\<close> of the error, one that resolves is \<open>Inr\<close> of the value.
\<close>

datatype js_error = Error (message: string) | TypeError (message: string)

type_synonym 'a result = "js_error + 'a"

text \<open>The \<open>tool\<close> enumeration of \<open>ActionSchema\<close>.\<close>

datatype tool = GOTO | ACT | EXTRACT | OBSERVE | CLOSE | WAIT | NAVBACK

fun tool_name :: "tool \<Rightarrow> string" where
  "tool_name GOTO = ''GOTO''"
| "tool_name ACT = ''ACT''"
| "tool_name EXTRACT = ''EXTRACT''"
| "tool_name OBSERVE = ''OBSERVE''"
| "tool_name CLOSE = ''CLOSE''"
| "tool_name WAIT = ''WAIT''"
| "tool_name NAVBACK = ''NAVBACK''"

text \<open>
  Every call the service makes to a collaborator (the Stagehand session, the language
  model, the progress sink) and every timer it waits for is logged, in order.
  \<open>EvGenerate\<close> carries what \<open>generateObject\<close> answered; \<open>EvTimeout ms\<close> is the
  timer of the \<open>Promise.race\<close> in \<open>executeAction\<close> firing first; \<open>EvSleep ms\<close> is
  an awaited \<open>setTimeout\<close>.
\<close>

datatype event =
    EvInit
  | EvGoto string
  | EvObserve
  | EvGenerate "(tool \<times> string) result"
  | EvOnAction string
  | EvAct string
  | EvTimeout nat
  | EvSleep nat
  | EvScreenshot
  | EvExtract
  | EvClose

text \<open>
  What \<open>page.act\<close> does relative to the timer it is raced against: it resolves first,
  rejects first, or is still pending when the timer fires (which covers a call that never
  settles).
\<close>

datatype act_outcome = ActResolved | ActRejected js_error | ActPending

text \<open>
  The collaborators. Each answer may depend on the arguments of the call and on all the
  interaction so far. The prompt sent to the model is a fixed template filled with the
  configuration, the numbered action history and the page state, so the model's answer is a
  function of the history and the page state. \<open>parse_r\<close> is
  \<open>SearchResultsSchema.parse\<close> (zod), \<open>'raw\<close> what \<open>page.extract\<close> yields.
\<close>

record ('raw, 'res) env =
  init_r :: "event list \<Rightarrow> unit result"
  goto_r :: "string \<Rightarrow> event list \<Rightarrow> unit result"
  observe_r :: "event list \<Rightarrow> string result"
  generate_r :: "string list \<Rightarrow> string \<Rightarrow> event list \<Rightarrow> (tool \<times> string) result"
  act_r :: "string \<Rightarrow> event list \<Rightarrow> act_outcome"
  screenshot_r :: "event list \<Rightarrow> unit result"
  extract_r :: "event list \<Rightarrow> 'raw result"
  parse_r :: "'raw \<Rightarrow> 'res result"
  close_r :: "event list \<Rightarrow> unit result"

record location =
  lat :: rat
  lng :: rat
  address :: string

record webAgentConfig =
  provider :: string
  specialists :: "string list"
  location :: location
  onAction :: "(string \<Rightarrow> event list \<Rightarrow> unit result) option"

text \<open>The mutable part of a \<open>WebAgentService\<close> instance, with the log.\<close>

record service =
  actionHistory :: "string list"
  trace :: "event list"

definition new_service :: service where
  "new_service = \<lparr>actionHistory = [], trace = []\<rparr>"

definition maxRetries :: nat where
  "maxRetries = 3"

definition actionTimeout :: nat where
  "actionTimeout = 10000"

definition log_event :: "event \<Rightarrow> service \<Rightarrow> service" where
  "log_event ev s = s\<lparr>trace := trace s @ [ev]\<rparr>"

definition sleep :: "nat \<Rightarrow> service \<Rightarrow> service" where
  "sleep ms s = log_event (EvSleep ms) s"

subsection \<open>retryOperation\<close>

text \<open>
  The \<open>for\<close> loop of \<open>retryOperation\<close> from index \<open>i\<close>, with \<open>n\<close> for
  \<open>this.maxRetries\<close>. \<open>lastError?.message\<close> of \<open>null\<close> prints as \<open>undefined\<close>.
\<close>

function retryFrom ::
  "nat \<Rightarrow> (service \<Rightarrow> 'a result \<times> service) \<Rightarrow> string \<Rightarrow> nat \<Rightarrow> js_error option
     \<Rightarrow> service \<Rightarrow> 'a result \<times> service" where
  "retryFrom n operation errorMessage i lastError s =
     (if i < n then
        (case operation s of
           (Inr v, s') \<Rightarrow> (Inr v, s')
         | (Inl error, s') \<Rightarrow>
             retryFrom n operation errorMessage (i + 1) (Some error)
               (sleep (1000 * (i + 1)) s'))
      else
        (Inl (Error (errorMessage @ '': '' @
                (case lastError of None \<Rightarrow> ''undefined'' | Some e \<Rightarrow> message e))), s))"
  by pat_completeness auto
termination
  by (relation "measure (\<lambda>(n, operation, errorMessage, i, lastError, s). n - i)") auto

declare retryFrom.simps [simp del]

definition retryOperation ::
  "(service \<Rightarrow> 'a result \<times> service) \<Rightarrow> string \<Rightarrow> service \<Rightarrow> 'a result \<times> service" where
  "retryOperation operation errorMessage s =
     retryFrom maxRetries operation errorMessage 0 None s"

subsection \<open>init, getNextAction and executeAction\<close>

definition init :: "('raw, 'res) env \<Rightarrow> service \<Rightarrow> unit result \<times> service" where
  "init env s =
     (case init_r env (trace s) of
        Inr _ \<Rightarrow> (Inr (), log_event EvInit s)
      | Inl error \<Rightarrow> (Inl (Error ''Failed to initialize web agent''), log_event EvInit s))"

text \<open>The template \<open>`${result.object.tool}: ${result.object.instruction}`\<close>.\<close>

definition formatAction :: "tool \<times> string \<Rightarrow> string" where
  "formatAction object = tool_name (fst object) @ '': '' @ snd object"

text \<open>\<open>await this.config.onAction?.(action)\<close>: no call when the sink is absent.\<close>

definition callOnAction :: "webAgentConfig \<Rightarrow> string \<Rightarrow> service \<Rightarrow> unit result \<times> service" where
  "callOnAction cfg action s =
     (case onAction cfg of
        None \<Rightarrow> (Inr (), s)
      | Some sink \<Rightarrow> (sink action (trace s), log_event (EvOnAction action) s))"

text \<open>
  The closure that \<open>getNextAction\<close> hands to \<open>retryOperation\<close>: ask the model (an answer
  that does not validate against \<open>ActionSchema\<close> is a rejection), format the action, push
  it on the history, notify the sink.
\<close>

definition planAttempt ::
  "('raw, 'res) env \<Rightarrow> webAgentConfig \<Rightarrow> string \<Rightarrow> service \<Rightarrow> string result \<times> service" where
  "planAttempt env cfg currentState s =
     (let answer = generate_r env (actionHistory s) currentState (trace s);
          s1 = log_event (EvGenerate answer) s
      in case answer of
           Inl error \<Rightarrow> (Inl error, s1)
         | Inr object \<Rightarrow>
             (let action = formatAction object;
                  s2 = s1\<lparr>actionHistory := actionHistory s1 @ [action]\<rparr>
              in case callOnAction cfg action s2 of
                   (Inl error, s3) \<Rightarrow> (Inl error, s3)
                 | (Inr _, s3) \<Rightarrow> (Inr action, s3)))"

definition getNextAction ::
  "('raw, 'res) env \<Rightarrow> webAgentConfig \<Rightarrow> string \<Rightarrow> service \<Rightarrow> string result \<times> service" where
  "getNextAction env cfg currentState s =
     retryOperation (planAttempt env cfg currentState) ''Failed to get next action from LLM'' s"

text \<open>
  The closure of \<open>executeAction\<close>: \<open>page.act\<close> raced against a timer of
  \<open>actionTimeout\<close> milliseconds that rejects with \<open>Action timeout\<close>.
\<close>

definition actAttempt :: "('raw, 'res) env \<Rightarrow> string \<Rightarrow> service \<Rightarrow> unit result \<times> service" where
  "actAttempt env action s =
     (let s1 = log_event (EvAct action) s
      in case act_r env action (trace s) of
           ActResolved \<Rightarrow> (Inr (), s1)
         | ActRejected error \<Rightarrow> (Inl error, s1)
         | ActPending \<Rightarrow> (Inl (Error ''Action timeout''), log_event (EvTimeout actionTimeout) s1))"

definition executeAction :: "('raw, 'res) env \<Rightarrow> string \<Rightarrow> service \<Rightarrow> unit result \<times> service" where
  "executeAction env action s =
     retryOperation (actAttempt env action) (''Failed to execute action: '' @ action) s"

subsection \<open>executeSearch\<close>

definition page_goto :: "('raw, 'res) env \<Rightarrow> string \<Rightarrow> service \<Rightarrow> unit result \<times> service" where
  "page_goto env url s = (goto_r env url (trace s), log_event (EvGoto url) s)"

text \<open>The observation is carried as its \<open>JSON.stringify\<close> text.\<close>

definition page_observe :: "('raw, 'res) env \<Rightarrow> service \<Rightarrow> string result \<times> service" where
  "page_observe env s = (observe_r env (trace s), log_event EvObserve s)"

definition page_screenshot :: "('raw, 'res) env \<Rightarrow> service \<Rightarrow> unit result \<times> service" where
  "page_screenshot env s = (screenshot_r env (trace s), log_event EvScreenshot s)"

definition page_extract :: "('raw, 'res) env \<Rightarrow> service \<Rightarrow> 'raw result \<times> service" where
  "page_extract env s = (extract_r env (trace s), log_event EvExtract s)"

definition close :: "('raw, 'res) env \<Rightarrow> service \<Rightarrow> unit result \<times> service" where
  "close env s = (close_r env (trace s), log_event EvClose s)"

text \<open>\<open>String.prototype.toLowerCase\<close> on ASCII letters, and \<open>includes\<close>.\<close>

definition lower_char :: "char \<Rightarrow> char" where
  "lower_char c =
     (let n = (of_char c :: nat) in if 65 \<le> n \<and> n \<le> 90 then char_of (n + 32) else c)"

definition toLowerCase :: "string \<Rightarrow> string" where
  "toLowerCase str = map lower_char str"

definition includes_str :: "string \<Rightarrow> string \<Rightarrow> bool" where
  "includes_str str searchString = sublist searchString str"

definition isCompletion :: "string \<Rightarrow> bool" where
  "isCompletion nextAction =
     (includes_str (toLowerCase nextAction) ''complete'' \<or>
      includes_str (toLowerCase nextAction) ''finished'')"

definition maxConsecutiveErrors :: nat where
  "maxConsecutiveErrors = 3"

text \<open>
  How one pass through the body of \<open>while (true)\<close> ends: the action ran and the loop goes
  on (\<open>Acted\<close>), \<open>break\<close> (\<open>Completed\<close>), \<open>continue\<close> from the \<open>catch\<close> block
  (\<open>Recovered\<close>), or an error thrown out of the \<open>catch\<close> block (\<open>Fatal\<close>).
\<close>

datatype step = Acted | Completed | Recovered | Fatal js_error

text \<open>The \<open>catch\<close> block of the loop body.\<close>

definition onIterationError ::
  "('raw, 'res) env \<Rightarrow> nat \<Rightarrow> service \<Rightarrow> step \<times> nat \<times> service" where
  "onIterationError env consecutiveErrors s =
     (let c = consecutiveErrors + 1
      in if c \<ge> maxConsecutiveErrors
         then (Fatal (Error ''Too many consecutive errors''), c, s)
         else (case page_screenshot env s of
                 (Inl error, s') \<Rightarrow> (Fatal error, c, s')
               | (Inr _, s') \<Rightarrow> (Recovered, c, s')))"

text \<open>The loop body, from the value of \<open>consecutiveErrors\<close> to its new value.\<close>

definition iteration ::
  "('raw, 'res) env \<Rightarrow> webAgentConfig \<Rightarrow> nat \<Rightarrow> service \<Rightarrow> step \<times> nat \<times> service" where
  "iteration env cfg consecutiveErrors s =
     (case page_observe env s of
        (Inl error, s1) \<Rightarrow> onIterationError env consecutiveErrors s1
      | (Inr pageState, s1) \<Rightarrow>
          (case getNextAction env cfg pageState s1 of
             (Inl error, s2) \<Rightarrow> onIterationError env consecutiveErrors s2
           | (Inr nextAction, s2) \<Rightarrow>
               if isCompletion nextAction then (Completed, consecutiveErrors, s2)
               else (case executeAction env nextAction s2 of
                       (Inl error, s3) \<Rightarrow> onIterationError env consecutiveErrors s3
                     | (Inr _, s3) \<Rightarrow> (Acted, 0, sleep 1000 s3))))"

text \<open>
  The loop has no bound on its iterations; \<open>fuel\<close> is the number of passes allowed, and
  \<open>None\<close> means the loop is still running after that many. The result is \<open>Inr ()\<close>
  after \<open>break\<close> and \<open>Inl\<close> of the error thrown out of the loop.
\<close>

fun searchLoop ::
  "nat \<Rightarrow> ('raw, 'res) env \<Rightarrow> webAgentConfig \<Rightarrow> nat \<Rightarrow> service
     \<Rightarrow> (unit result \<times> nat \<times> service) option" where
  "searchLoop 0 env cfg consecutiveErrors s = None"
| "searchLoop (Suc fuel) env cfg consecutiveErrors s =
     (case iteration env cfg consecutiveErrors s of
        (Acted, c, s') \<Rightarrow> searchLoop fuel env cfg c s'
      | (Recovered, c, s') \<Rightarrow> searchLoop fuel env cfg c s'
      | (Completed, c, s') \<Rightarrow> Some (Inr (), c, s')
      | (Fatal error, c, s') \<Rightarrow> Some (Inl error, c, s'))"

text \<open>The \<open>finally\<close> block: an error of \<open>close\<close> replaces the outcome.\<close>

definition finallyClose ::
  "('raw, 'res) env \<Rightarrow> 'res result \<Rightarrow> service \<Rightarrow> 'res result \<times> service" where
  "finallyClose env outcome s =
     (case close env s of
        (Inl error, s') \<Rightarrow> (Inl error, s')
      | (Inr _, s') \<Rightarrow> (outcome, s'))"

text \<open>
  What follows the loop: after \<open>break\<close> the results are extracted and parsed, after an
  error thrown out of the loop the outer \<open>catch\<close> rethrows it; the \<open>finally\<close> block
  runs in both cases.
\<close>

definition afterLoop ::
  "('raw, 'res) env \<Rightarrow> unit result \<Rightarrow> service \<Rightarrow> 'res result \<times> service" where
  "afterLoop env exit s =
     (case exit of
        Inl error \<Rightarrow> finallyClose env (Inl error) s
      | Inr _ \<Rightarrow>
          (case page_extract env s of
             (Inl error, s3) \<Rightarrow> finallyClose env (Inl error) s3
           | (Inr results, s3) \<Rightarrow> finallyClose env (parse_r env results) s3))"

definition executeSearch ::
  "nat \<Rightarrow> ('raw, 'res) env \<Rightarrow> webAgentConfig \<Rightarrow> service \<Rightarrow> ('res result \<times> service) option" where
  "executeSearch fuel env cfg s =
     (case page_goto env (provider cfg) s of
        (Inl error, s1) \<Rightarrow> Some (finallyClose env (Inl error) s1)
      | (Inr _, s1) \<Rightarrow>
          (case searchLoop fuel env cfg 0 s1 of
             None \<Rightarrow> None
           | Some (exit, c, s2) \<Rightarrow> Some (afterLoop env exit s2)))"

text \<open>
  How the route handler (src/app/api/search/route.ts) drives a search: a new service,
  \<open>await webAgent.init()\<close>, then \<open>await webAgent.executeSearch()\<close>.
\<close>

definition runWebAgent ::
  "nat \<Rightarrow> ('raw, 'res) env \<Rightarrow> webAgentConfig \<Rightarrow> ('res result \<times> service) option" where
  "runWebAgent fuel env cfg =
     (case init env new_service of
        (Inl error, s) \<Rightarrow> Some (Inl error, s)
      | (Inr _, s) \<Rightarrow> executeSearch fuel env cfg s)"

section \<open>The request validator (src/app/api/search/route.ts)\<close>

text \<open>
  The parsed JSON body is any JavaScript value. Numbers are doubles: a finite value (both
  zeros are \<open>Finite 0\<close>), an infinity (\<open>JSON.parse\<close> of \<open>1e999\<close>) or \<open>NaN\<close>. An
  object is the list of its own properties.
\<close>

datatype jsnum = Finite rat | PosInf | NegInf | NaN

datatype jsval =
    JUndefined
  | JNull
  | JBool bool
  | JNum jsnum
  | JStr string
  | JArr "jsval list"
  | JObj "(string \<times> jsval) list"

text \<open>What \<open>!v\<close> negates: \<open>undefined\<close>, \<open>null\<close>, \<open>false\<close>, \<open>0\<close>, \<open>NaN\<close> and \<open>''\<close> are falsy.\<close>

fun truthy :: "jsval \<Rightarrow> bool" where
  "truthy JUndefined = False"
| "truthy JNull = False"
| "truthy (JBool b) = b"
| "truthy (JNum n) = (n \<noteq> Finite 0 \<and> n \<noteq> NaN)"
| "truthy (JStr str) = (str \<noteq> [])"
| "truthy (JArr xs) = True"
| "truthy (JObj kvs) = True"

text \<open>
  Reading one of the properties the validator reads (\<open>query\<close>, \<open>provider\<close>,
  \<open>location\<close>, \<open>lat\<close>, \<open>lng\<close>, \<open>address\<close>) of a value that is neither \<open>null\<close> nor
  \<open>undefined\<close>: none of them is a property of a primitive or of an array, so only an
  object can hold one. On \<open>null\<close> and \<open>undefined\<close> the read throws; \<open>validateRequest\<close>
  handles that case before it reads.
\<close>

fun getProp :: "jsval \<Rightarrow> string \<Rightarrow> jsval" where
  "getProp (JObj kvs) key = (case map_of kvs key of None \<Rightarrow> JUndefined | Some v \<Rightarrow> v)"
| "getProp v key = JUndefined"

text \<open>The keys of \<open>PROVIDER_URLS\<close> (src/constants/providers), in order.\<close>

definition PROVIDER_URLS :: "(string \<times> string) list" where
  "PROVIDER_URLS =
     [(''unitedhealthcare'', ''https://www.uhc.com/find-a-doctor''),
      (''aetna'', ''https://www.aetna.com/dsepublic/#/contentPage?page=providerSearchLanding''),
      (''cigna'', ''https://hcpdirectory.cigna.com/web/public/consumer/directory'')]"

record validation =
  isValid :: bool
  error :: "string option"

definition validateRequest :: "jsval \<Rightarrow> validation result" where
  "validateRequest body =
     (if body = JNull
      then Inl (TypeError ''Cannot read properties of null (reading 'query')'')
      else if body = JUndefined
      then Inl (TypeError ''Cannot read properties of undefined (reading 'query')'')
      else if \<not> truthy (getProp body ''query'') \<or> \<not> truthy (getProp body ''provider'')
                \<or> \<not> truthy (getProp body ''location'')
      then Inr \<lparr>isValid = False,
                error = Some ''Missing required fields: query, provider, and location are required''\<rparr>
      else
        (let location = getProp body ''location''
         in if \<not> truthy (getProp location ''lat'') \<or> \<not> truthy (getProp location ''lng'')
                 \<or> \<not> truthy (getProp location ''address'')
            then Inr \<lparr>isValid = False,
                      error = Some ''Invalid location: latitude, longitude, and address are required''\<rparr>
            else if getProp body ''provider'' \<notin> set (map (JStr \<circ> fst) PROVIDER_URLS)
            then Inr \<lparr>isValid = False, error = Some ''Invalid insurance provider selected''\<rparr>
            else Inr \<lparr>isValid = True, error = None\<rparr>))"

section \<open>Reading the log\<close>

text \<open>The events a pass through the loop body can log.\<close>

fun loop_event :: "event \<Rightarrow> bool" where
  "loop_event EvInit = False"
| "loop_event (EvGoto url) = False"
| "loop_event EvExtract = False"
| "loop_event EvClose = False"
| "loop_event ev = True"

text \<open>The formatted actions of the answers the model gave, in order.\<close>

fun planned :: "event list \<Rightarrow> string list" where
  "planned [] = []"
| "planned (EvGenerate (Inr object) # evs) = formatAction object # planned evs"
| "planned (ev # evs) = planned evs"

text \<open>
  From \<open>s\<close> to \<open>s'\<close> the log grew by events that all satisfy \<open>P\<close>, and the history grew
  by the actions planned in between.
\<close>

definition steps :: "(event \<Rightarrow> bool) \<Rightarrow> service \<Rightarrow> service \<Rightarrow> bool" where
  "steps P s s' =
     (\<exists>evs. trace s' = trace s @ evs \<and> list_all P evs \<and>
            actionHistory s' = actionHistory s @ planned evs)"

text \<open>A string has the shape \<open>TOOL: instruction\<close>.\<close>

definition wellFormed :: "string \<Rightarrow> bool" where
  "wellFormed action = (\<exists>t instruction. action = tool_name t @ '': '' @ instruction)"

section \<open>Scenarios\<close>

text \<open>
  A session in which every collaborator answers at once: the model plans two clicks and
  then the end of the session, and the page yields one provider.
\<close>

definition cfg_plain :: webAgentConfig where
  "cfg_plain =
     \<lparr>provider = ''https://www.uhc.com/find-a-doctor'', specialists = [''Cardiologist''],
      location = \<lparr>lat = 42, lng = -71, address = ''Boston''\<rparr>, onAction = None\<rparr>"

definition env_ok :: "(string list, string list) env" where
  "env_ok =
     \<lparr>init_r = (\<lambda>t. Inr ()),
      goto_r = (\<lambda>url t. Inr ()),
      observe_r = (\<lambda>t. Inr ''search form''),
      generate_r = (\<lambda>history state t.
         if length history < 2 then Inr (ACT, ''click search'')
         else Inr (CLOSE, ''session complete'')),
      act_r = (\<lambda>action t. ActResolved),
      screenshot_r = (\<lambda>t. Inr ()),
      extract_r = (\<lambda>t. Inr [''Dr. Ada'']),
      parse_r = (\<lambda>raw. Inr raw),
      close_r = (\<lambda>t. Inr ())\<rparr>"

text \<open>\<open>page.act\<close> never settles.\<close>

definition env_hang :: "(string list, string list) env" where
  "env_hang = env_ok\<lparr>act_r := (\<lambda>action t. ActPending)\<rparr>"

text \<open>\<open>page.act\<close> never settles and the model never plans the end of the session.\<close>

definition env_stuck :: "(string list, string list) env" where
  "env_stuck =
     env_ok\<lparr>generate_r := (\<lambda>history state t. Inr (ACT, ''click search'')),
            act_r := (\<lambda>action t. ActPending)\<rparr>"

text \<open>The model announces the end at once, in capitals.\<close>

definition env_done :: "(string list, string list) env" where
  "env_done = env_ok\<lparr>generate_r := (\<lambda>history state t. Inr (CLOSE, ''Search FINISHED''))\<rparr>"

text \<open>\<open>page.act\<close> rejects the first time an action is tried and resolves afterwards.\<close>

definition env_retry_once :: "(string list, string list) env" where
  "env_retry_once =
     env_ok\<lparr>act_r := (\<lambda>action t. if EvAct action \<in> set t then ActResolved
                                   else ActRejected (Error ''element not found''))\<rparr>"

text \<open>\<open>page.act\<close> always rejects.\<close>

definition env_reject :: "(string list, string list) env" where
  "env_reject = env_ok\<lparr>act_r := (\<lambda>action t. ActRejected (Error ''element not found''))\<rparr>"

text \<open>\<open>stagehand.init\<close> rejects.\<close>

definition env_no_browser :: "(string list, string list) env" where
  "env_no_browser = env_ok\<lparr>init_r := (\<lambda>t. Inl (Error ''no session''))\<rparr>"

text \<open>The provider's site cannot be reached; the page yields no results.\<close>

definition env_offline :: "(string list, string list) env" where
  "env_offline = env_ok\<lparr>goto_r := (\<lambda>url t. Inl (Error ''net::ERR_NAME_NOT_RESOLVED''))\<rparr>"

definition env_no_results :: "(string list, string list) env" where
  "env_no_results = env_done\<lparr>extract_r := (\<lambda>t. Inl (Error ''extraction failed''))\<rparr>"

text \<open>Every observation fails.\<close>

definition env_blind :: "(string list, string list) env" where
  "env_blind = env_ok\<lparr>observe_r := (\<lambda>t. Inl (Error ''observe failed''))\<rparr>"

text \<open>The first observation fails; the screenshot taken on recovery succeeds or fails.\<close>

definition env_observe_once_fails :: "(string list, string list) env" where
  "env_observe_once_fails =
     env_ok\<lparr>observe_r := (\<lambda>t. if EvObserve \<in> set t then Inr ''search form''
                                else Inl (Error ''observe failed''))\<rparr>"

definition env_no_screenshot :: "(string list, string list) env" where
  "env_no_screenshot =
     env_observe_once_fails\<lparr>screenshot_r := (\<lambda>t. Inl (Error ''capture failed''))\<rparr>"

text \<open>A progress sink that always rejects, and one that rejects its first call only.\<close>

definition cfg_sink_down :: webAgentConfig where
  "cfg_sink_down = cfg_plain\<lparr>onAction := Some (\<lambda>action t. Inl (Error ''stream closed''))\<rparr>"

definition cfg_sink_flaky :: webAgentConfig where
  "cfg_sink_flaky =
     cfg_plain\<lparr>onAction := Some (\<lambda>action t.
        if list_ex (\<lambda>ev. case ev of EvOnAction a \<Rightarrow> True | _ \<Rightarrow> False) t then Inr ()
        else Inl (Error ''stream closed''))\<rparr>"

text \<open>Requests: a zero latitude with and without a query.\<close>

definition request_equator :: jsval where
  "request_equator =
     JObj [(''query'', JStr ''chest pain''), (''provider'', JStr ''aetna''),
           (''location'', JObj [(''lat'', JNum (Finite 0)), (''lng'', JNum (Finite 32)),
                                (''address'', JStr ''Kampala Road'')])]"

definition request_equator_no_query :: jsval where
  "request_equator_no_query =
     JObj [(''query'', JStr []), (''provider'', JStr ''aetna''),
           (''location'', JObj [(''lat'', JNum (Finite 0)), (''lng'', JNum (Finite 32)),
                                (''address'', JStr ''Kampala Road'')])]"

section \<open>Properties of retryOperation\<close>

lemma retryFrom_done:
  "\<not> i < n \<Longrightarrow> retryFrom n operation errorMessage i lastError s =
     (Inl (Error (errorMessage @ '': '' @
        (case lastError of None \<Rightarrow> ''undefined'' | Some e \<Rightarrow> message e))), s)"
  by (simp add: retryFrom.simps)

lemma retryFrom_ok:
  "i < n \<Longrightarrow> operation s = (Inr v, s') \<Longrightarrow>
     retryFrom n operation errorMessage i lastError s = (Inr v, s')"
  by (subst retryFrom.simps) simp

lemma retryFrom_fail:
  "i < n \<Longrightarrow> operation s = (Inl e, s') \<Longrightarrow>
     retryFrom n operation errorMessage i lastError s =
       retryFrom n operation errorMessage (Suc i) (Some e) (sleep (1000 * (i + 1)) s')"
  by (subst retryFrom.simps) simp

lemma retry_all_fail:
  assumes "operation s0 = (Inl e1, s1)"
    and "operation (sleep 1000 s1) = (Inl e2, s2)"
    and "operation (sleep 2000 s2) = (Inl e3, s3)"
  shows "retryOperation operation errorMessage s0 =
           (Inl (Error (errorMessage @ '': '' @ message e3)), sleep 3000 s3)"
proof -
  have "retryOperation operation errorMessage s0 =
          retryFrom 3 operation errorMessage 1 (Some e1) (sleep 1000 s1)"
    using retryFrom_fail [of 0 3 operation s0 e1 s1] assms(1)
    by (simp add: retryOperation_def maxRetries_def)
  also have "\<dots> = retryFrom 3 operation errorMessage 2 (Some e2) (sleep 2000 s2)"
    using retryFrom_fail [of 1 3 operation "sleep 1000 s1" e2 s2] assms(2)
    by (simp add: numeral_2_eq_2)
  also have "\<dots> = retryFrom 3 operation errorMessage 3 (Some e3) (sleep 3000 s3)"
    using retryFrom_fail [of 2 3 operation "sleep 2000 s2" e3 s3] assms(3)
    by (simp add: numeral_3_eq_3)
  also have "\<dots> = (Inl (Error (errorMessage @ '': '' @ message e3)), sleep 3000 s3)"
    by (simp add: retryFrom_done)
  finally show ?thesis .
qed

section \<open>How the operations extend the log\<close>

lemma planned_append: "planned (xs @ ys) = planned xs @ planned ys"
  by (induction xs rule: planned.induct) simp_all

lemma steps_refl: "steps P s s"
  by (simp add: steps_def)

lemma steps_trans: "steps P s s1 \<Longrightarrow> steps P s1 s2 \<Longrightarrow> steps P s s2"
  unfolding steps_def
  by (elim exE conjE, rule_tac x = "evs @ evsa" in exI) (simp add: planned_append)

lemma steps_mono: "steps P s s' \<Longrightarrow> (\<And>ev. P ev \<Longrightarrow> Q ev) \<Longrightarrow> steps Q s s'"
  unfolding steps_def list_all_iff by blast

lemma planned_single: "planned [ev] = (case ev of EvGenerate (Inr object) \<Rightarrow> [formatAction object] | _ \<Rightarrow> [])"
  by (cases ev) (auto split: sum.splits)

lemma steps_log:
  "P ev \<Longrightarrow> planned [ev] = [] \<Longrightarrow> steps P s (log_event ev s)"
  by (simp add: steps_def log_event_def)

lemma steps_sleep: "P (EvSleep ms) \<Longrightarrow> steps P s (sleep ms s)"
  by (simp add: sleep_def steps_log)

lemma retryFrom_steps:
  "retryFrom n operation errorMessage i lastError s = (r, s') \<Longrightarrow>
   (\<forall>s r s'. operation s = (r, s') \<longrightarrow> steps P s s') \<Longrightarrow> (\<forall>ms. P (EvSleep ms)) \<Longrightarrow>
   steps P s s'"
proof (induction n operation errorMessage i lastError s rule: retryFrom.induct)
  case (1 n operation errorMessage i lastError s)
  note op = "1.prems"(2) and sl = "1.prems"(3)
  show ?case
  proof (cases "i < n")
    case False
    with "1.prems"(1) show ?thesis by (simp add: retryFrom_done steps_refl)
  next
    case True
    obtain r1 s1 where o: "operation s = (r1, s1)" by (cases "operation s")
    have st: "steps P s s1" using op o by blast
    show ?thesis
    proof (cases r1)
      case (Inr v)
      with True o "1.prems"(1) st show ?thesis by (simp add: retryFrom_ok)
    next
      case (Inl e)
      have rec: "retryFrom n operation errorMessage (i + 1) (Some e) (sleep (1000 * (i + 1)) s1) = (r, s')"
        using True o Inl "1.prems"(1) by (simp add: retryFrom_fail)
      have "steps P (sleep (1000 * (i + 1)) s1) s'"
        using "1.IH" [OF True o [symmetric] Inl rec op sl] .
      moreover have "steps P s1 (sleep (1000 * (i + 1)) s1)"
        using sl by (simp add: steps_sleep)
      ultimately show ?thesis using st steps_trans by blast
    qed
  qed
qed

lemma retryOperation_steps:
  "retryOperation operation errorMessage s = (r, s') \<Longrightarrow>
   (\<forall>s r s'. operation s = (r, s') \<longrightarrow> steps P s s') \<Longrightarrow> (\<forall>ms. P (EvSleep ms)) \<Longrightarrow>
   steps P s s'"
  unfolding retryOperation_def by (rule retryFrom_steps)

lemma callOnAction_steps:
  "callOnAction cfg action s = (r, s') \<Longrightarrow> P (EvOnAction action) \<Longrightarrow> steps P s s'"
  by (auto simp: callOnAction_def steps_refl steps_log split: option.splits)

lemma init_steps: "init env s = (r, s') \<Longrightarrow> P EvInit \<Longrightarrow> steps P s s'"
  by (auto simp: init_def steps_log split: sum.splits)

lemma page_goto_steps: "page_goto env url s = (r, s') \<Longrightarrow> P (EvGoto url) \<Longrightarrow> steps P s s'"
  by (auto simp: page_goto_def steps_log)

lemma page_observe_steps: "page_observe env s = (r, s') \<Longrightarrow> P EvObserve \<Longrightarrow> steps P s s'"
  by (auto simp: page_observe_def steps_log)

lemma page_screenshot_steps:
  "page_screenshot env s = (r, s') \<Longrightarrow> P EvScreenshot \<Longrightarrow> steps P s s'"
  by (auto simp: page_screenshot_def steps_log)

lemma page_extract_steps: "page_extract env s = (r, s') \<Longrightarrow> P EvExtract \<Longrightarrow> steps P s s'"
  by (auto simp: page_extract_def steps_log)

lemma close_steps: "close env s = (r, s') \<Longrightarrow> P EvClose \<Longrightarrow> steps P s s'"
  by (auto simp: close_def steps_log)

lemma steps_push:
  "P (EvGenerate (Inr object)) \<Longrightarrow>
   steps P s ((log_event (EvGenerate (Inr object)) s)
     \<lparr>actionHistory := actionHistory (log_event (EvGenerate (Inr object)) s) @ [formatAction object]\<rparr>)"
  by (simp add: steps_def log_event_def)

lemma planAttempt_steps:
  assumes "planAttempt env cfg currentState s = (r, s')"
    and "\<forall>answer. P (EvGenerate answer)" and "\<forall>action. P (EvOnAction action)"
  shows "steps P s s'"
proof (cases "generate_r env (actionHistory s) currentState (trace s)")
  case (Inl e)
  with assms show ?thesis by (auto simp: planAttempt_def Let_def steps_log)
next
  case (Inr object)
  let ?s2 = "(log_event (EvGenerate (Inr object)) s)
     \<lparr>actionHistory := actionHistory (log_event (EvGenerate (Inr object)) s) @ [formatAction object]\<rparr>"
  obtain r3 s3 where c: "callOnAction cfg (formatAction object) ?s2 = (r3, s3)"
    by (cases "callOnAction cfg (formatAction object) ?s2")
  have "s' = s3" using assms(1) Inr c by (auto simp: planAttempt_def Let_def split: sum.splits)
  moreover have "steps P s ?s2" using assms(2) by (simp add: steps_push)
  moreover have "steps P ?s2 s3" using callOnAction_steps [OF c] assms(3) by simp
  ultimately show ?thesis using steps_trans by blast
qed

lemma getNextAction_steps:
  assumes "getNextAction env cfg currentState s = (r, s')"
    and "\<forall>answer. P (EvGenerate answer)" and "\<forall>action. P (EvOnAction action)"
    and "\<forall>ms. P (EvSleep ms)"
  shows "steps P s s'"
  using assms(1) unfolding getNextAction_def
proof (rule retryOperation_steps)
  show "\<forall>s r s'. planAttempt env cfg currentState s = (r, s') \<longrightarrow> steps P s s'"
    using planAttempt_steps [of env cfg currentState _ _ _ P] assms(2,3) by blast
  show "\<forall>ms. P (EvSleep ms)" by (rule assms(4))
qed

lemma actAttempt_steps:
  assumes "actAttempt env action s = (r, s')" and "P (EvAct action)"
    and "P (EvTimeout actionTimeout)"
  shows "steps P s s'"
proof -
  have "steps P s (log_event (EvAct action) s)" using assms(2) by (simp add: steps_log)
  moreover have "steps P (log_event (EvAct action) s)
      (log_event (EvTimeout actionTimeout) (log_event (EvAct action) s))"
    using assms(3) by (simp add: steps_log)
  ultimately show ?thesis using assms(1) steps_trans
    by (auto simp: actAttempt_def Let_def split: act_outcome.splits)
qed

lemma executeAction_steps:
  assumes "executeAction env action s = (r, s')" and "P (EvAct action)"
    and "P (EvTimeout actionTimeout)" and "\<forall>ms. P (EvSleep ms)"
  shows "steps P s s'"
  using assms(1) unfolding executeAction_def
proof (rule retryOperation_steps)
  show "\<forall>s r s'. actAttempt env action s = (r, s') \<longrightarrow> steps P s s'"
    using actAttempt_steps [of env action _ _ _ P] assms(2,3) by blast
  show "\<forall>ms. P (EvSleep ms)" by (rule assms(4))
qed

lemma onIterationError_steps:
  "onIterationError env c s = (out, c', s') \<Longrightarrow> P EvScreenshot \<Longrightarrow> steps P s s'"
  using page_screenshot_steps [of env s _ _ P]
  by (auto simp: onIterationError_def Let_def steps_refl split: if_splits prod.splits sum.splits)

lemma iteration_steps:
  assumes "iteration env cfg c s = (out, c', s')" and "\<forall>ev. loop_event ev \<longrightarrow> P ev"
  shows "steps P s s'"
proof -
  have P: "P EvObserve" "P EvScreenshot" "\<forall>answer. P (EvGenerate answer)"
    "\<forall>action. P (EvOnAction action)" "\<forall>ms. P (EvSleep ms)" "\<forall>action. P (EvAct action)"
    "\<forall>ms. P (EvTimeout ms)"
    using assms(2) by simp_all
  obtain r1 s1 where o: "page_observe env s = (r1, s1)" by (cases "page_observe env s")
  have s1: "steps P s s1" by (rule page_observe_steps [OF o]) (rule P(1))
  show ?thesis
  proof (cases r1)
    case (Inl e)
    then have "onIterationError env c s1 = (out, c', s')"
      using assms(1) o by (simp add: iteration_def)
    then have "steps P s1 s'" by (rule onIterationError_steps) (rule P(2))
    then show ?thesis using s1 steps_trans by blast
  next
    case (Inr pageState)
    obtain r2 s2 where g: "getNextAction env cfg pageState s1 = (r2, s2)"
      by (cases "getNextAction env cfg pageState s1")
    have "steps P s1 s2" by (rule getNextAction_steps [OF g]) (simp_all add: P)
    then have s2: "steps P s s2" using s1 steps_trans by blast
    show ?thesis
    proof (cases r2)
      case (Inl e)
      then have "onIterationError env c s2 = (out, c', s')"
        using assms(1) o Inr g by (simp add: iteration_def)
      then have "steps P s2 s'" by (rule onIterationError_steps) (rule P(2))
      then show ?thesis using s2 steps_trans by blast
    next
      case nx: (Inr nextAction)
      show ?thesis
      proof (cases "isCompletion nextAction")
        case True
        then have "s' = s2" using assms(1) o Inr g nx by (simp add: iteration_def)
        then show ?thesis using s2 by simp
      next
        case False
        obtain r3 s3 where x: "executeAction env nextAction s2 = (r3, s3)"
          by (cases "executeAction env nextAction s2")
        have "steps P s2 s3" by (rule executeAction_steps [OF x]) (simp_all add: P)
        then have s3: "steps P s s3" using s2 steps_trans by blast
        show ?thesis
        proof (cases r3)
          case (Inl e)
          then have "onIterationError env c s3 = (out, c', s')"
            using assms(1) o Inr g nx False x by (simp add: iteration_def)
          then have "steps P s3 s'" by (rule onIterationError_steps) (rule P(2))
          then show ?thesis using s3 steps_trans by blast
        next
          case ok: (Inr u)
          then have "s' = sleep 1000 s3"
            using assms(1) o Inr g nx False x by (simp add: iteration_def)
          moreover have "steps P s3 (sleep 1000 s3)" using P(5) by (simp add: steps_sleep)
          ultimately show ?thesis using s3 steps_trans by blast
        qed
      qed
    qed
  qed
qed

lemma searchLoop_steps:
  "searchLoop fuel env cfg c s = Some (r, c', s') \<Longrightarrow> \<forall>ev. loop_event ev \<longrightarrow> P ev \<Longrightarrow>
   steps P s s'"
proof (induction fuel arbitrary: c s)
  case 0
  then show ?case by simp
next
  case (Suc fuel)
  obtain out c1 s1 where it: "iteration env cfg c s = (out, c1, s1)"
    by (cases "iteration env cfg c s")
  have st: "steps P s s1" by (rule iteration_steps [OF it]) (rule Suc.prems(2))
  show ?case
  proof (cases out)
    case Acted
    then have "searchLoop fuel env cfg c1 s1 = Some (r, c', s')" using Suc.prems(1) it by simp
    then show ?thesis using Suc.IH Suc.prems(2) st steps_trans by blast
  next
    case Recovered
    then have "searchLoop fuel env cfg c1 s1 = Some (r, c', s')" using Suc.prems(1) it by simp
    then show ?thesis using Suc.IH Suc.prems(2) st steps_trans by blast
  next
    case Completed
    then show ?thesis using Suc.prems(1) it st by simp
  next
    case (Fatal e)
    then show ?thesis using Suc.prems(1) it st by simp
  qed
qed

lemma steps_prefix: "steps P s s' \<Longrightarrow> \<exists>evs. trace s' = trace s @ evs"
  unfolding steps_def by blast

lemma steps_set:
  "steps P s s' \<Longrightarrow> \<exists>evs. trace s' = trace s @ evs \<and> (\<forall>ev\<in>set evs. P ev)"
  unfolding steps_def list_all_iff by blast

lemma steps_history:
  "steps P s s' \<Longrightarrow> \<exists>evs. trace s' = trace s @ evs \<and> actionHistory s' = actionHistory s @ planned evs"
  unfolding steps_def by blast

lemma planned_none: "\<forall>ev\<in>set evs. \<forall>object. ev \<noteq> EvGenerate (Inr object) \<Longrightarrow> planned evs = []"
  by (induction evs rule: planned.induct) auto

lemma planned_wellFormed: "a \<in> set (planned evs) \<Longrightarrow> wellFormed a"
  by (induction evs rule: planned.induct) (auto simp: wellFormed_def formatAction_def)

lemma actAttempt_first:
  "actAttempt env action s = (r, s') \<Longrightarrow> \<exists>evs. trace s' = trace s @ EvAct action # evs"
  by (auto simp: actAttempt_def Let_def log_event_def split: act_outcome.splits)

lemma retryFrom_prefix:
  assumes "retryFrom n (actAttempt env action) errorMessage i lastError s = (r, s')"
  shows "\<exists>evs. trace s' = trace s @ evs"
proof -
  have "steps (\<lambda>ev. True) s s'"
  proof (rule retryFrom_steps [OF assms])
    show "\<forall>s r s'. actAttempt env action s = (r, s') \<longrightarrow> steps (\<lambda>ev. True) s s'"
      using actAttempt_steps [of env action _ _ _ "\<lambda>ev. True"] by blast
    show "\<forall>ms. (\<lambda>ev. True) (EvSleep ms)" by simp
  qed
  then show ?thesis by (rule steps_prefix)
qed

lemma executeAction_second_attempt:
  assumes "actAttempt env action s = (Inl e, s1)"
  shows "\<exists>evs. trace (snd (executeAction env action s)) =
           trace s1 @ [EvSleep 1000, EvAct action] @ evs"
proof -
  let ?op = "actAttempt env action"
  let ?msg = "''Failed to execute action: '' @ action"
  let ?s1 = "sleep 1000 s1"
  have t1: "trace ?s1 = trace s1 @ [EvSleep 1000]" by (simp add: sleep_def log_event_def)
  have e1: "executeAction env action s = retryFrom 3 ?op ?msg 1 (Some e) ?s1"
    using retryFrom_fail [of 0 3 ?op s e s1 ?msg None] assms
    by (simp add: executeAction_def retryOperation_def maxRetries_def)
  obtain r2 s2 where o2: "?op ?s1 = (r2, s2)" by (cases "?op ?s1")
  obtain evs2 where t2: "trace s2 = trace ?s1 @ EvAct action # evs2"
    using actAttempt_first [OF o2] by blast
  show ?thesis
  proof (cases r2)
    case (Inr u)
    then have "executeAction env action s = (Inr u, s2)"
      using e1 retryFrom_ok [of 1 3 ?op ?s1 u s2 ?msg "Some e"] o2 by simp
    then show ?thesis using t1 t2 by simp
  next
    case (Inl e2)
    obtain r s' where fin: "retryFrom 3 ?op ?msg 2 (Some e2) (sleep 2000 s2) = (r, s')"
      by (cases "retryFrom 3 ?op ?msg 2 (Some e2) (sleep 2000 s2)")
    have "executeAction env action s = (r, s')"
      using e1 retryFrom_fail [of 1 3 ?op ?s1 e2 s2 ?msg "Some e"] o2 Inl fin
      by (simp add: numeral_2_eq_2)
    moreover obtain evs3 where "trace s' = trace (sleep 2000 s2) @ evs3"
      using retryFrom_prefix [OF fin] by blast
    ultimately show ?thesis using t1 t2 by (simp add: sleep_def log_event_def)
  qed
qed

text \<open>A value returned by \<open>retryOperation\<close> is the value of one attempt.\<close>

lemma retryFrom_Inr:
  "retryFrom n operation errorMessage i lastError s = (Inr v, s') \<Longrightarrow>
   \<exists>s0. operation s0 = (Inr v, s')"
proof (induction n operation errorMessage i lastError s rule: retryFrom.induct)
  case (1 n operation errorMessage i lastError s)
  show ?case
  proof (cases "i < n")
    case False
    with "1.prems" show ?thesis by (simp add: retryFrom_done)
  next
    case True
    obtain r1 s1 where o: "operation s = (r1, s1)" by (cases "operation s")
    show ?thesis
    proof (cases r1)
      case (Inr w)
      with True o "1.prems" show ?thesis by (auto simp: retryFrom_ok)
    next
      case (Inl e)
      have rec: "retryFrom n operation errorMessage (i + 1) (Some e) (sleep (1000 * (i + 1)) s1) =
                   (Inr v, s')"
        using True o Inl "1.prems" by (simp add: retryFrom_fail)
      show ?thesis using "1.IH" [OF True o [symmetric] Inl rec] .
    qed
  qed
qed

section \<open>The loop body and the loop\<close>










lemma finallyClose_trace:
  "finallyClose env outcome s = (r, s') \<Longrightarrow>
   trace s' = trace s @ [EvClose] \<and> actionHistory s' = actionHistory s"
  by (auto simp: finallyClose_def close_def log_event_def split: sum.splits)

lemma afterLoop_trace:
  "afterLoop env exit s = (r, s') \<Longrightarrow>
   trace s' = trace s @ (case exit of Inl e \<Rightarrow> [] | Inr u \<Rightarrow> [EvExtract]) @ [EvClose] \<and>
   actionHistory s' = actionHistory s"
  by (auto simp: afterLoop_def page_extract_def log_event_def
      split: sum.splits prod.splits dest!: finallyClose_trace)

section \<open>Evaluating the scenarios\<close>

lemma searchLoop_numeral:
  "searchLoop (numeral k) env cfg c s =
     (case iteration env cfg c s of
        (Acted, c, s') \<Rightarrow> searchLoop (pred_numeral k) env cfg c s'
      | (Recovered, c, s') \<Rightarrow> searchLoop (pred_numeral k) env cfg c s'
      | (Completed, c, s') \<Rightarrow> Some (Inr (), c, s')
      | (Fatal e, c, s') \<Rightarrow> Some (Inl e, c, s'))"
  by (simp add: numeral_eq_Suc)

lemma isCompletion_examples:
  "isCompletion ''CLOSE: session complete''" "\<not> isCompletion ''ACT: click search''"
  "isCompletion ''CLOSE: Search FINISHED''"
  by code_simp+

lemmas eval_defs = retryFrom.simps retryOperation_def maxRetries_def actionTimeout_def
  actAttempt_def planAttempt_def getNextAction_def executeAction_def callOnAction_def
  formatAction_def Let_def log_event_def sleep_def new_service_def init_def page_goto_def
  page_observe_def page_screenshot_def page_extract_def close_def finallyClose_def afterLoop_def
  executeSearch_def runWebAgent_def iteration_def onIterationError_def maxConsecutiveErrors_def
  searchLoop_numeral isCompletion_examples
  env_ok_def env_hang_def env_stuck_def env_done_def env_blind_def env_offline_def env_no_results_def env_retry_once_def env_reject_def env_no_browser_def
  env_observe_once_fails_def env_no_screenshot_def cfg_plain_def cfg_sink_down_def
  cfg_sink_flaky_def


section \<open>The retry executor\<close>

text \<open>
  C5: an operation that fails on each of its three attempts is invoked three times (on the
  starting state and after each backoff), the waits after the failures are 1000, 2000 and
  3000 milliseconds (base 1000 times the attempt number), and \<open>retryOperation\<close> then
  fails with the error whose message is the label, a colon and the message of the last
  underlying error.
\<close>

theorem retryOperation_exhausted:
  assumes "operation s0 = (Inl e1, s1)"
    and "operation (sleep 1000 s1) = (Inl e2, s2)"
    and "operation (sleep 2000 s2) = (Inl e3, s3)"
  shows "retryOperation operation errorMessage s0 =
           (Inl (Error (errorMessage @ '': '' @ message e3)), sleep 3000 s3)"
  using assms by (rule retry_all_fail)

theorem retryOperation_exhausted_witness:
  "retryOperation (actAttempt env_reject ''ACT: click search'') ''Failed to execute action'' new_service =
     (Inl (Error ''Failed to execute action: element not found''),
      \<lparr>actionHistory = [],
       trace = [EvAct ''ACT: click search'', EvSleep 1000, EvAct ''ACT: click search'', EvSleep 2000,
                EvAct ''ACT: click search'', EvSleep 3000]\<rparr>)"
proof -
  let ?op = "actAttempt env_reject ''ACT: click search''"
  let ?a = "EvAct ''ACT: click search''"
  let ?e = "Error ''element not found''"
  let ?s1 = "\<lparr>actionHistory = [], trace = [?a]\<rparr>"
  let ?s2 = "\<lparr>actionHistory = [], trace = [?a, EvSleep 1000, ?a]\<rparr>"
  let ?s3 = "\<lparr>actionHistory = [], trace = [?a, EvSleep 1000, ?a, EvSleep 2000, ?a]\<rparr>"
  have h1: "?op new_service = (Inl ?e, ?s1)" by code_simp
  have h2: "?op (sleep 1000 ?s1) = (Inl ?e, ?s2)" by code_simp
  have h3: "?op (sleep 2000 ?s2) = (Inl ?e, ?s3)" by code_simp
  have h4: "sleep 3000 ?s3 = \<lparr>actionHistory = [],
       trace = [?a, EvSleep 1000, ?a, EvSleep 2000, ?a, EvSleep 3000]\<rparr>" by code_simp
  show ?thesis
    using retryOperation_exhausted [OF h1 h2 h3, of "''Failed to execute action''"]
    unfolding h4 by simp
qed



section \<open>The action executor\<close>

text \<open>One attempt, by what \<open>page.act\<close> does.\<close>

lemma actAttempt_pending:
  "act_r env action (trace s) = ActPending \<Longrightarrow>
   actAttempt env action s =
     (Inl (Error ''Action timeout''),
      s\<lparr>trace := trace s @ [EvAct action, EvTimeout actionTimeout]\<rparr>)"
  by (simp add: actAttempt_def Let_def log_event_def)

lemma actAttempt_rejected:
  "act_r env action (trace s) = ActRejected e \<Longrightarrow>
   actAttempt env action s = (Inl e, s\<lparr>trace := trace s @ [EvAct action]\<rparr>)"
  by (simp add: actAttempt_def Let_def log_event_def)

lemma actAttempt_resolved:
  "act_r env action (trace s) = ActResolved \<Longrightarrow>
   actAttempt env action s = (Inr (), s\<lparr>trace := trace s @ [EvAct action]\<rparr>)"
  by (simp add: actAttempt_def Let_def log_event_def)

lemma sleep_trace: "sleep ms s = s\<lparr>trace := trace s @ [EvSleep ms]\<rparr>"
  by (simp add: sleep_def log_event_def)

text \<open>A call that never settles: three attempts, three timeouts.\<close>

lemma executeAction_never_settles:
  assumes "\<forall>t. act_r env action t = ActPending"
  shows "executeAction env action s =
           (Inl (Error (''Failed to execute action: '' @ action @ '': Action timeout'')),
            s\<lparr>trace := trace s @
               [EvAct action, EvTimeout actionTimeout, EvSleep 1000,
                EvAct action, EvTimeout actionTimeout, EvSleep 2000,
                EvAct action, EvTimeout actionTimeout, EvSleep 3000]\<rparr>)"
proof -
  let ?op = "actAttempt env action"
  let ?e = "Error ''Action timeout''"
  let ?A = "[EvAct action, EvTimeout actionTimeout]"
  let ?s1 = "s\<lparr>trace := trace s @ ?A\<rparr>"
  let ?s2 = "s\<lparr>trace := trace s @ ?A @ [EvSleep 1000] @ ?A\<rparr>"
  let ?s3 = "s\<lparr>trace := trace s @ ?A @ [EvSleep 1000] @ ?A @ [EvSleep 2000] @ ?A\<rparr>"
  have p: "\<And>t. act_r env action (trace t) = ActPending" using assms by simp
  have 1: "?op s = (Inl ?e, ?s1)" using actAttempt_pending [OF p, of s] by simp
  have 2: "?op (sleep 1000 ?s1) = (Inl ?e, ?s2)"
    using actAttempt_pending [OF p, of "sleep 1000 ?s1"] by (simp add: sleep_trace)
  have 3: "?op (sleep 2000 ?s2) = (Inl ?e, ?s3)"
    using actAttempt_pending [OF p, of "sleep 2000 ?s2"] by (simp add: sleep_trace)
  show ?thesis
    unfolding executeAction_def
    using retry_all_fail [OF 1 2 3, of "''Failed to execute action: '' @ action"]
    by (simp add: sleep_trace)
qed

text \<open>A call that rejects every time: three attempts, the last error in the message.\<close>

lemma executeAction_always_rejects:
  assumes "\<forall>t. act_r env action t = ActRejected e"
  shows "executeAction env action s =
           (Inl (Error (''Failed to execute action: '' @ action @ '': '' @ message e)),
            s\<lparr>trace := trace s @
               [EvAct action, EvSleep 1000, EvAct action, EvSleep 2000,
                EvAct action, EvSleep 3000]\<rparr>)"
proof -
  let ?op = "actAttempt env action"
  let ?s1 = "s\<lparr>trace := trace s @ [EvAct action]\<rparr>"
  let ?s2 = "s\<lparr>trace := trace s @ [EvAct action, EvSleep 1000, EvAct action]\<rparr>"
  let ?s3 = "s\<lparr>trace := trace s @ [EvAct action, EvSleep 1000, EvAct action, EvSleep 2000,
                                      EvAct action]\<rparr>"
  have p: "\<And>t. act_r env action (trace t) = ActRejected e" using assms by simp
  have 1: "?op s = (Inl e, ?s1)" using actAttempt_rejected [OF p, of s] by simp
  have 2: "?op (sleep 1000 ?s1) = (Inl e, ?s2)"
    using actAttempt_rejected [OF p, of "sleep 1000 ?s1"] by (simp add: sleep_trace)
  have 3: "?op (sleep 2000 ?s2) = (Inl e, ?s3)"
    using actAttempt_rejected [OF p, of "sleep 2000 ?s2"] by (simp add: sleep_trace)
  show ?thesis
    unfolding executeAction_def
    using retry_all_fail [OF 1 2 3, of "''Failed to execute action: '' @ action"]
    by (simp add: sleep_trace)
qed

text \<open>A first attempt that rejects and a second one that resolves.\<close>

lemma executeAction_recovers:
  assumes "act_r env action (trace s) = ActRejected e"
    and "act_r env action (trace s @ [EvAct action, EvSleep 1000]) = ActResolved"
  shows "executeAction env action s =
           (Inr (), s\<lparr>trace := trace s @ [EvAct action, EvSleep 1000, EvAct action]\<rparr>)"
proof -
  let ?op = "actAttempt env action"
  let ?msg = "''Failed to execute action: '' @ action"
  let ?s1 = "s\<lparr>trace := trace s @ [EvAct action]\<rparr>"
  let ?s2 = "s\<lparr>trace := trace s @ [EvAct action, EvSleep 1000, EvAct action]\<rparr>"
  have 1: "?op s = (Inl e, ?s1)" by (rule actAttempt_rejected [OF assms(1)])
  have 2: "?op (sleep 1000 ?s1) = (Inr (), ?s2)"
    using actAttempt_resolved [of env action "sleep 1000 ?s1"] assms(2)
    by (simp add: sleep_trace)
  have "executeAction env action s = retryFrom 3 ?op ?msg 1 (Some e) (sleep 1000 ?s1)"
    using retryFrom_fail [of 0 3 ?op s e ?s1 ?msg None] 1
    by (simp add: executeAction_def retryOperation_def maxRetries_def)
  also have "\<dots> = (Inr (), ?s2)"
    using retryFrom_ok [of 1 3 ?op "sleep 1000 ?s1" "()" ?s2 ?msg "Some e"] 2 by simp
  finally show ?thesis .
qed

text \<open>
  C6: when \<open>page.act\<close> is still pending as the timer fires (so also when it never
  settles), the attempt is rejected by the timer of \<open>actionTimeout\<close> = 10000 milliseconds
  with the error \<open>Action timeout\<close>; when \<open>page.act\<close> rejects, the attempt fails with that
  error. In both cases \<open>executeAction\<close> waits 1000 milliseconds and calls \<open>page.act\<close>
  again with the same action. A call that never settles is tried three times and
  \<open>executeAction\<close> fails with \<open>Failed to execute action: ...: Action timeout\<close>; a call
  that always rejects is tried three times and \<open>executeAction\<close> fails with the message of
  the rejection; a call that rejects once and then resolves makes \<open>executeAction\<close>
  succeed at the second attempt. Whatever happens, \<open>executeAction\<close> logs only calls of
  \<open>page.act\<close> with this action, timeouts and waits: it never asks the model and never
  touches the history.
\<close>

theorem executeAction_timeout_retry:
  "(act_r env action (trace s) = ActPending \<longrightarrow>
      actionTimeout = 10000 \<and>
      actAttempt env action s =
        (Inl (Error ''Action timeout''),
         s\<lparr>trace := trace s @ [EvAct action, EvTimeout actionTimeout]\<rparr>) \<and>
      (\<exists>evs. trace (snd (executeAction env action s)) =
               trace s @ [EvAct action, EvTimeout actionTimeout, EvSleep 1000, EvAct action]
                 @ evs)) \<and>
   (act_r env action (trace s) = ActRejected e \<longrightarrow>
      actAttempt env action s = (Inl e, s\<lparr>trace := trace s @ [EvAct action]\<rparr>) \<and>
      (\<exists>evs. trace (snd (executeAction env action s)) =
               trace s @ [EvAct action, EvSleep 1000, EvAct action] @ evs)) \<and>
   ((\<forall>t. act_r env action t = ActPending) \<longrightarrow>
      executeAction env action s =
        (Inl (Error (''Failed to execute action: '' @ action @ '': Action timeout'')),
         s\<lparr>trace := trace s @
            [EvAct action, EvTimeout actionTimeout, EvSleep 1000,
             EvAct action, EvTimeout actionTimeout, EvSleep 2000,
             EvAct action, EvTimeout actionTimeout, EvSleep 3000]\<rparr>)) \<and>
   ((\<forall>t. act_r env action t = ActRejected e) \<longrightarrow>
      executeAction env action s =
        (Inl (Error (''Failed to execute action: '' @ action @ '': '' @ message e)),
         s\<lparr>trace := trace s @
            [EvAct action, EvSleep 1000, EvAct action, EvSleep 2000,
             EvAct action, EvSleep 3000]\<rparr>)) \<and>
   (act_r env action (trace s) = ActRejected e \<and>
    act_r env action (trace s @ [EvAct action, EvSleep 1000]) = ActResolved \<longrightarrow>
      executeAction env action s =
        (Inr (), s\<lparr>trace := trace s @ [EvAct action, EvSleep 1000, EvAct action]\<rparr>)) \<and>
   (actAttempt env action s = (Inl e, s1) \<longrightarrow>
      (\<exists>evs. trace (snd (executeAction env action s)) =
               trace s1 @ [EvSleep 1000, EvAct action] @ evs)) \<and>
   (executeAction env action s = (r, s') \<longrightarrow>
      actionHistory s' = actionHistory s \<and>
      (\<exists>evs. trace s' = trace s @ evs \<and>
         (\<forall>ev\<in>set evs. ev = EvAct action \<or> ev = EvTimeout actionTimeout \<or>
                         (\<exists>ms. ev = EvSleep ms))))"
proof -
  have P1: "act_r env action (trace s) = ActPending \<longrightarrow>
      actionTimeout = 10000 \<and>
      actAttempt env action s =
        (Inl (Error ''Action timeout''),
         s\<lparr>trace := trace s @ [EvAct action, EvTimeout actionTimeout]\<rparr>) \<and>
      (\<exists>evs. trace (snd (executeAction env action s)) =
               trace s @ [EvAct action, EvTimeout actionTimeout, EvSleep 1000, EvAct action]
                 @ evs)"
  proof
    assume a: "act_r env action (trace s) = ActPending"
    note at = actAttempt_pending [OF a]
    have "\<exists>evs. trace (snd (executeAction env action s)) =
        trace (s\<lparr>trace := trace s @ [EvAct action, EvTimeout actionTimeout]\<rparr>) @
          [EvSleep 1000, EvAct action] @ evs"
      by (rule executeAction_second_attempt [OF at])
    then have "\<exists>evs. trace (snd (executeAction env action s)) =
               trace s @ [EvAct action, EvTimeout actionTimeout, EvSleep 1000, EvAct action]
                 @ evs"
      by simp
    then show "actionTimeout = 10000 \<and>
      actAttempt env action s =
        (Inl (Error ''Action timeout''),
         s\<lparr>trace := trace s @ [EvAct action, EvTimeout actionTimeout]\<rparr>) \<and>
      (\<exists>evs. trace (snd (executeAction env action s)) =
               trace s @ [EvAct action, EvTimeout actionTimeout, EvSleep 1000, EvAct action]
                 @ evs)"
      using at by (simp add: actionTimeout_def)
  qed
  have P2: "act_r env action (trace s) = ActRejected e \<longrightarrow>
      actAttempt env action s = (Inl e, s\<lparr>trace := trace s @ [EvAct action]\<rparr>) \<and>
      (\<exists>evs. trace (snd (executeAction env action s)) =
               trace s @ [EvAct action, EvSleep 1000, EvAct action] @ evs)"
  proof
    assume a: "act_r env action (trace s) = ActRejected e"
    note at = actAttempt_rejected [OF a]
    have "\<exists>evs. trace (snd (executeAction env action s)) =
        trace (s\<lparr>trace := trace s @ [EvAct action]\<rparr>) @ [EvSleep 1000, EvAct action] @ evs"
      by (rule executeAction_second_attempt [OF at])
    then have "\<exists>evs. trace (snd (executeAction env action s)) =
               trace s @ [EvAct action, EvSleep 1000, EvAct action] @ evs"
      by simp
    then show "actAttempt env action s = (Inl e, s\<lparr>trace := trace s @ [EvAct action]\<rparr>) \<and>
      (\<exists>evs. trace (snd (executeAction env action s)) =
               trace s @ [EvAct action, EvSleep 1000, EvAct action] @ evs)"
      using at by simp
  qed
  have P3: "(\<forall>t. act_r env action t = ActPending) \<longrightarrow>
      executeAction env action s =
        (Inl (Error (''Failed to execute action: '' @ action @ '': Action timeout'')),
         s\<lparr>trace := trace s @
            [EvAct action, EvTimeout actionTimeout, EvSleep 1000,
             EvAct action, EvTimeout actionTimeout, EvSleep 2000,
             EvAct action, EvTimeout actionTimeout, EvSleep 3000]\<rparr>)"
    using executeAction_never_settles by blast
  have P4: "(\<forall>t. act_r env action t = ActRejected e) \<longrightarrow>
      executeAction env action s =
        (Inl (Error (''Failed to execute action: '' @ action @ '': '' @ message e)),
         s\<lparr>trace := trace s @
            [EvAct action, EvSleep 1000, EvAct action, EvSleep 2000,
             EvAct action, EvSleep 3000]\<rparr>)"
    using executeAction_always_rejects by blast
  have P5: "act_r env action (trace s) = ActRejected e \<and>
    act_r env action (trace s @ [EvAct action, EvSleep 1000]) = ActResolved \<longrightarrow>
      executeAction env action s =
        (Inr (), s\<lparr>trace := trace s @ [EvAct action, EvSleep 1000, EvAct action]\<rparr>)"
    using executeAction_recovers by blast
  have P6: "actAttempt env action s = (Inl e, s1) \<longrightarrow>
      (\<exists>evs. trace (snd (executeAction env action s)) =
               trace s1 @ [EvSleep 1000, EvAct action] @ evs)"
    using executeAction_second_attempt by blast
  have P7: "executeAction env action s = (r, s') \<longrightarrow>
      actionHistory s' = actionHistory s \<and>
      (\<exists>evs. trace s' = trace s @ evs \<and>
         (\<forall>ev\<in>set evs. ev = EvAct action \<or> ev = EvTimeout actionTimeout \<or>
                         (\<exists>ms. ev = EvSleep ms)))"
  proof
    assume x: "executeAction env action s = (r, s')"
    let ?P = "\<lambda>ev. ev = EvAct action \<or> ev = EvTimeout actionTimeout \<or> (\<exists>ms. ev = EvSleep ms)"
    have st: "steps ?P s s'" by (rule executeAction_steps [OF x]) simp_all
    then obtain evs where evs: "trace s' = trace s @ evs" "\<forall>ev\<in>set evs. ?P ev"
      "actionHistory s' = actionHistory s @ planned evs"
      unfolding steps_def list_all_iff by blast
    have "planned evs = []" by (rule planned_none) (use evs(2) in auto)
    then have "actionHistory s' = actionHistory s" using evs(3) by simp
    then show "actionHistory s' = actionHistory s \<and>
      (\<exists>evs. trace s' = trace s @ evs \<and> (\<forall>ev\<in>set evs. ?P ev))"
      using evs(1,2) by blast
  qed
  show ?thesis
    by (rule conjI [OF P1 conjI [OF P2 conjI [OF P3 conjI [OF P4 conjI [OF P5 conjI [OF P6 P7]]]]]])
qed

theorem executeAction_timeout_retry_witness:
  "actAttempt env_hang ''ACT: click search'' new_service =
     (Inl (Error ''Action timeout''),
      \<lparr>actionHistory = [], trace = [EvAct ''ACT: click search'', EvTimeout 10000]\<rparr>) \<and>
   executeAction env_hang ''ACT: click search'' new_service =
     (Inl (Error ''Failed to execute action: ACT: click search: Action timeout''),
      \<lparr>actionHistory = [],
       trace = [EvAct ''ACT: click search'', EvTimeout 10000, EvSleep 1000,
                EvAct ''ACT: click search'', EvTimeout 10000, EvSleep 2000,
                EvAct ''ACT: click search'', EvTimeout 10000, EvSleep 3000]\<rparr>) \<and>
   actAttempt env_reject ''ACT: click search'' new_service =
     (Inl (Error ''element not found''),
      \<lparr>actionHistory = [], trace = [EvAct ''ACT: click search'']\<rparr>) \<and>
   executeAction env_reject ''ACT: click search'' new_service =
     (Inl (Error ''Failed to execute action: ACT: click search: element not found''),
      \<lparr>actionHistory = [],
       trace = [EvAct ''ACT: click search'', EvSleep 1000,
                EvAct ''ACT: click search'', EvSleep 2000,
                EvAct ''ACT: click search'', EvSleep 3000]\<rparr>) \<and>
   executeAction env_retry_once ''ACT: click search'' new_service =
     (Inr (),
      \<lparr>actionHistory = [],
       trace = [EvAct ''ACT: click search'', EvSleep 1000, EvAct ''ACT: click search'']\<rparr>)"
proof -
  let ?a = "''ACT: click search''"
  let ?to = "Error ''Action timeout''"
  let ?nf = "Error ''element not found''"
  let ?s1 = "\<lparr>actionHistory = [], trace = [EvAct ?a, EvTimeout 10000]\<rparr>"
  let ?r = "Inl (Error ''Failed to execute action: ACT: click search: Action timeout'') :: unit result"
  let ?s' = "\<lparr>actionHistory = [],
       trace = [EvAct ?a, EvTimeout 10000, EvSleep 1000, EvAct ?a, EvTimeout 10000, EvSleep 2000,
                EvAct ?a, EvTimeout 10000, EvSleep 3000]\<rparr>"
  have pend: "\<forall>t. act_r env_hang ?a t = ActPending" by (simp add: eval_defs)
  have pend0: "act_r env_hang ?a (trace new_service) = ActPending" using pend by blast
  have rej: "\<forall>t. act_r env_reject ?a t = ActRejected ?nf" by (simp add: eval_defs)
  have rej0: "act_r env_reject ?a (trace new_service) = ActRejected ?nf" using rej by blast
  have once1: "act_r env_retry_once ?a (trace new_service) = ActRejected ?nf"
    by (simp add: eval_defs)
  have once2: "act_r env_retry_once ?a (trace new_service @ [EvAct ?a, EvSleep 1000]) =
      ActResolved"
    by (simp add: eval_defs)
  note hang = executeAction_timeout_retry [where env = env_hang and action = ?a
      and s = new_service and e = ?to and ?s1.0 = ?s1 and r = ?r and s' = ?s']
  note reject = executeAction_timeout_retry [where env = env_reject and action = ?a
      and s = new_service and e = ?nf]
  note once = executeAction_timeout_retry [where env = env_retry_once and action = ?a
      and s = new_service and e = ?nf]
  have 1: "actAttempt env_hang ?a new_service =
      (Inl ?to, new_service\<lparr>trace := trace new_service @ [EvAct ?a, EvTimeout actionTimeout]\<rparr>)"
    using hang pend0 by blast
  have 2: "executeAction env_hang ?a new_service =
        (Inl (Error (''Failed to execute action: '' @ ?a @ '': Action timeout'')),
         new_service\<lparr>trace := trace new_service @
            [EvAct ?a, EvTimeout actionTimeout, EvSleep 1000,
             EvAct ?a, EvTimeout actionTimeout, EvSleep 2000,
             EvAct ?a, EvTimeout actionTimeout, EvSleep 3000]\<rparr>)"
    using hang pend by blast
  have 3: "actAttempt env_reject ?a new_service =
      (Inl ?nf, new_service\<lparr>trace := trace new_service @ [EvAct ?a]\<rparr>)"
    using reject rej0 by blast
  have 4: "executeAction env_reject ?a new_service =
        (Inl (Error (''Failed to execute action: '' @ ?a @ '': '' @ message ?nf)),
         new_service\<lparr>trace := trace new_service @
            [EvAct ?a, EvSleep 1000, EvAct ?a, EvSleep 2000, EvAct ?a, EvSleep 3000]\<rparr>)"
    using reject rej by blast
  have 5: "executeAction env_retry_once ?a new_service =
        (Inr (), new_service\<lparr>trace := trace new_service @ [EvAct ?a, EvSleep 1000, EvAct ?a]\<rparr>)"
    using once once1 once2 by blast
  have a1: "actAttempt env_hang ?a new_service = (Inl ?to, ?s1)"
    using 1 by (simp add: new_service_def actionTimeout_def)
  have x1: "executeAction env_hang ?a new_service = (?r, ?s')"
    using 2 by (simp add: new_service_def actionTimeout_def)
  have 6: "\<exists>evs. trace (snd (executeAction env_hang ?a new_service)) =
      trace ?s1 @ [EvSleep 1000, EvAct ?a] @ evs"
    using hang a1 by blast
  have 7: "actionHistory ?s' = actionHistory new_service"
    using hang x1 by blast
  show ?thesis
    using a1 x1 3 4 5 6 7 by (simp add: new_service_def)
qed

section \<open>The completion check\<close>






section \<open>The consecutive-error counter\<close>



section \<open>Closing the session\<close>

lemma executeSearch_trace:
  assumes "executeSearch fuel env cfg s = Some (r, s')"
  shows "\<exists>evs. trace s' = trace s @ evs @ [EvClose] \<and> EvClose \<notin> set evs"
proof -
  obtain r1 s1 where g: "page_goto env (provider cfg) s = (r1, s1)"
    by (cases "page_goto env (provider cfg) s")
  have t1: "trace s1 = trace s @ [EvGoto (provider cfg)]"
    using g by (auto simp: page_goto_def log_event_def)
  show ?thesis
  proof (cases r1)
    case (Inl e)
    then have "finallyClose env (Inl e) s1 = (r, s')"
      using assms g by (simp add: executeSearch_def)
    then have "trace s' = trace s1 @ [EvClose]" using finallyClose_trace by blast
    then have "trace s' = trace s @ [EvGoto (provider cfg)] @ [EvClose]" using t1 by simp
    moreover have "EvClose \<notin> set [EvGoto (provider cfg)]" by simp
    ultimately show ?thesis by blast
  next
    case (Inr u)
    then obtain exit c s2 where l: "searchLoop fuel env cfg 0 s1 = Some (exit, c, s2)"
      and al: "afterLoop env exit s2 = (r, s')"
      using assms g by (auto simp: executeSearch_def split: option.splits)
    have "steps (\<lambda>ev. ev \<noteq> EvClose) s1 s2" by (rule searchLoop_steps [OF l]) auto
    then obtain evs where evs: "trace s2 = trace s1 @ evs" "\<forall>ev\<in>set evs. ev \<noteq> EvClose"
      using steps_set [of "\<lambda>ev. ev \<noteq> EvClose" s1 s2] by blast
    let ?x = "case exit of Inl e \<Rightarrow> [] | Inr u \<Rightarrow> [EvExtract]"
    have "trace s' = trace s2 @ ?x @ [EvClose]" using afterLoop_trace [OF al] by simp
    then have "trace s' = trace s @ ([EvGoto (provider cfg)] @ evs @ ?x) @ [EvClose]"
      using t1 evs(1) by simp
    moreover have "EvClose \<notin> set ([EvGoto (provider cfg)] @ evs @ ?x)"
      using evs(2) by (auto split: sum.splits)
    ultimately show ?thesis by blast
  qed
qed

lemma count_one_at_end: "x \<notin> set xs \<Longrightarrow> count_list (ys @ xs @ [x]) x = count_list ys x + 1"
  by (simp add: count_list_0_iff)

text \<open>
  C1, amended: \<open>executeSearch\<close> calls \<open>close\<close> exactly once, as its last step, on every
  path on which it ends (normal completion, abort at the error threshold, failure of the
  extraction or of the parse, failure of the first navigation). A session that the route
  handler starts with a successful \<open>init\<close> therefore closes once. When \<open>init\<close> throws,
  \<open>executeSearch\<close> is not entered and \<open>close\<close> is not called.
\<close>

theorem close_exactly_once:
  "(executeSearch fuel env cfg s = Some (r, s') \<longrightarrow>
      (\<exists>evs. trace s' = trace s @ evs @ [EvClose] \<and> EvClose \<notin> set evs)) \<and>
   (init env new_service = (Inr u, s1) \<and> runWebAgent fuel env cfg = Some (r, s') \<longrightarrow>
      count_list (trace s') EvClose = 1 \<and> last (trace s') = EvClose) \<and>
   (init env new_service = (Inl e, s1) \<longrightarrow>
      runWebAgent fuel env cfg = Some (Inl (Error ''Failed to initialize web agent''), s1) \<and>
      trace s1 = [EvInit])"
proof -
  have A: "executeSearch fuel env cfg s = Some (r, s') \<longrightarrow>
      (\<exists>evs. trace s' = trace s @ evs @ [EvClose] \<and> EvClose \<notin> set evs)"
    using executeSearch_trace by blast
  have B: "init env new_service = (Inr u, s1) \<and> runWebAgent fuel env cfg = Some (r, s') \<longrightarrow>
      count_list (trace s') EvClose = 1 \<and> last (trace s') = EvClose"
  proof
    assume a: "init env new_service = (Inr u, s1) \<and> runWebAgent fuel env cfg = Some (r, s')"
    then have t1: "trace s1 = [EvInit]"
      by (auto simp: init_def new_service_def log_event_def split: sum.splits)
    have "executeSearch fuel env cfg s1 = Some (r, s')" using a by (auto simp: runWebAgent_def)
    then obtain evs where evs: "trace s' = trace s1 @ evs @ [EvClose]" "EvClose \<notin> set evs"
      using executeSearch_trace by blast
    have "count_list (trace s') EvClose = count_list [EvInit] EvClose + 1"
      unfolding evs(1) t1 using evs(2) by (rule count_one_at_end)
    then show "count_list (trace s') EvClose = 1 \<and> last (trace s') = EvClose"
      using evs(1) by simp
  qed
  have C: "init env new_service = (Inl e, s1) \<longrightarrow>
      runWebAgent fuel env cfg = Some (Inl (Error ''Failed to initialize web agent''), s1) \<and>
      trace s1 = [EvInit]"
    by (auto simp: runWebAgent_def init_def new_service_def log_event_def split: sum.splits)
  show ?thesis by (rule conjI [OF A conjI [OF B C]])
qed

theorem close_exactly_once_witness:
  "runWebAgent 3 env_ok cfg_plain =
     Some (Inr [''Dr. Ada''],
       \<lparr>actionHistory = [''ACT: click search'', ''ACT: click search'', ''CLOSE: session complete''],
        trace = [EvInit, EvGoto ''https://www.uhc.com/find-a-doctor'',
                 EvObserve, EvGenerate (Inr (ACT, ''click search'')),
                 EvAct ''ACT: click search'', EvSleep 1000,
                 EvObserve, EvGenerate (Inr (ACT, ''click search'')),
                 EvAct ''ACT: click search'', EvSleep 1000,
                 EvObserve, EvGenerate (Inr (CLOSE, ''session complete'')),
                 EvExtract, EvClose]\<rparr>) \<and>
   runWebAgent 3 env_blind cfg_plain =
     Some (Inl (Error ''Too many consecutive errors''),
       \<lparr>actionHistory = [],
        trace = [EvInit, EvGoto ''https://www.uhc.com/find-a-doctor'', EvObserve, EvScreenshot,
                 EvObserve, EvScreenshot, EvObserve, EvClose]\<rparr>) \<and>
   runWebAgent 1 env_no_results cfg_plain =
     Some (Inl (Error ''extraction failed''),
       \<lparr>actionHistory = [''CLOSE: Search FINISHED''],
        trace = [EvInit, EvGoto ''https://www.uhc.com/find-a-doctor'', EvObserve,
                 EvGenerate (Inr (CLOSE, ''Search FINISHED'')), EvExtract, EvClose]\<rparr>) \<and>
   executeSearch 0 env_offline cfg_plain new_service =
     Some (Inl (Error ''net::ERR_NAME_NOT_RESOLVED''),
       \<lparr>actionHistory = [],
        trace = [EvGoto ''https://www.uhc.com/find-a-doctor'', EvClose]\<rparr>) \<and>
   runWebAgent 3 env_no_browser cfg_plain =
     Some (Inl (Error ''Failed to initialize web agent''), \<lparr>actionHistory = [], trace = [EvInit]\<rparr>)"
proof -
  let ?i = "\<lparr>actionHistory = [], trace = [EvInit]\<rparr>"
  let ?u = "''https://www.uhc.com/find-a-doctor''"
  let ?s_ok = "\<lparr>actionHistory = [''ACT: click search'', ''ACT: click search'', ''CLOSE: session complete''],
        trace = [EvInit, EvGoto ?u,
                 EvObserve, EvGenerate (Inr (ACT, ''click search'')),
                 EvAct ''ACT: click search'', EvSleep 1000,
                 EvObserve, EvGenerate (Inr (ACT, ''click search'')),
                 EvAct ''ACT: click search'', EvSleep 1000,
                 EvObserve, EvGenerate (Inr (CLOSE, ''session complete'')),
                 EvExtract, EvClose]\<rparr>"
  let ?s_blind = "\<lparr>actionHistory = [],
        trace = [EvInit, EvGoto ?u, EvObserve, EvScreenshot,
                 EvObserve, EvScreenshot, EvObserve, EvClose]\<rparr>"
  let ?s_nores = "\<lparr>actionHistory = [''CLOSE: Search FINISHED''],
        trace = [EvInit, EvGoto ?u, EvObserve,
                 EvGenerate (Inr (CLOSE, ''Search FINISHED'')), EvExtract, EvClose]\<rparr>"
  let ?s_off = "\<lparr>actionHistory = [], trace = [EvGoto ?u, EvClose]\<rparr>"
  have i_ok: "init env_ok new_service = (Inr (), ?i)" by (simp add: eval_defs)
  have i_blind: "init env_blind new_service = (Inr (), ?i)" by (simp add: eval_defs)
  have i_nores: "init env_no_results new_service = (Inr (), ?i)" by (simp add: eval_defs)
  have i_nob: "init env_no_browser new_service = (Inl (Error ''Failed to initialize web agent''), ?i)"
    by (simp add: eval_defs)
  have r_ok: "runWebAgent 3 env_ok cfg_plain = Some (Inr [''Dr. Ada''], ?s_ok)"
    by (simp add: eval_defs)
  have r_blind: "runWebAgent 3 env_blind cfg_plain =
      Some (Inl (Error ''Too many consecutive errors''), ?s_blind)"
    by (simp add: eval_defs)
  have r_nores: "runWebAgent 1 env_no_results cfg_plain =
      Some (Inl (Error ''extraction failed''), ?s_nores)"
    by (simp add: eval_defs)
  have r_off: "executeSearch 0 env_offline cfg_plain new_service =
      Some (Inl (Error ''net::ERR_NAME_NOT_RESOLVED''), ?s_off)"
    by (simp add: eval_defs)
  have 1: "count_list (trace ?s_ok) EvClose = 1 \<and> last (trace ?s_ok) = EvClose"
    using close_exactly_once [where env = env_ok and cfg = cfg_plain and fuel = 3 and u = "()"
        and ?s1.0 = ?i and r = "Inr [''Dr. Ada'']" and s' = ?s_ok] i_ok r_ok by blast
  have 2: "count_list (trace ?s_blind) EvClose = 1 \<and> last (trace ?s_blind) = EvClose"
    using close_exactly_once [where env = env_blind and cfg = cfg_plain and fuel = 3 and u = "()"
        and ?s1.0 = ?i and r = "Inl (Error ''Too many consecutive errors'')" and s' = ?s_blind]
      i_blind r_blind by blast
  have 3: "count_list (trace ?s_nores) EvClose = 1 \<and> last (trace ?s_nores) = EvClose"
    using close_exactly_once [where env = env_no_results and cfg = cfg_plain and fuel = 1
        and u = "()" and ?s1.0 = ?i and r = "Inl (Error ''extraction failed'')" and s' = ?s_nores]
      i_nores r_nores by blast
  have 4: "\<exists>evs. trace ?s_off = trace new_service @ evs @ [EvClose] \<and> EvClose \<notin> set evs"
    using close_exactly_once [where env = env_offline and cfg = cfg_plain and fuel = 0
        and s = new_service and r = "Inl (Error ''net::ERR_NAME_NOT_RESOLVED'')" and s' = ?s_off]
      r_off by blast
  have 5: "runWebAgent 3 env_no_browser cfg_plain =
      Some (Inl (Error ''Failed to initialize web agent''), ?i)"
    using close_exactly_once [where env = env_no_browser and cfg = cfg_plain and fuel = 3
        and e = "Error ''Failed to initialize web agent''" and ?s1.0 = ?i] i_nob
    by blast
  show ?thesis using r_ok r_blind r_nores r_off 1 2 3 4 5 by blast
qed

text \<open>
  The claim as stated fails when \<open>init\<close> throws: the session ends with the
  initialization error and \<open>close\<close> has not been called.
\<close>

theorem close_after_failed_init_counterexample:
  "runWebAgent 3 env_no_browser cfg_plain =
     Some (Inl (Error ''Failed to initialize web agent''), \<lparr>actionHistory = [], trace = [EvInit]\<rparr>) \<and>
   count_list [EvInit] EvClose \<noteq> 1"
  by (simp add: eval_defs)

section \<open>The action history\<close>

lemma finallyClose_steps:
  "finallyClose env outcome s = (r, s') \<Longrightarrow> P EvClose \<Longrightarrow> steps P s s'"
  using finallyClose_trace [of env outcome s r s'] by (simp add: steps_def)

lemma afterLoop_steps:
  assumes "afterLoop env exit s = (r, s')" and "P EvExtract" and "P EvClose"
  shows "steps P s s'"
proof -
  have "trace s' = trace s @ (case exit of Inl e \<Rightarrow> [] | Inr u \<Rightarrow> [EvExtract]) @ [EvClose]"
    and "actionHistory s' = actionHistory s"
    using afterLoop_trace [OF assms(1)] by simp_all
  then show ?thesis using assms(2,3) by (cases exit) (auto simp: steps_def)
qed

lemma executeSearch_steps:
  assumes "executeSearch fuel env cfg s = Some (r, s')"
  shows "steps (\<lambda>ev. True) s s'"
proof -
  obtain r1 s1 where g: "page_goto env (provider cfg) s = (r1, s1)"
    by (cases "page_goto env (provider cfg) s")
  have st1: "steps (\<lambda>ev. True) s s1" by (rule page_goto_steps [OF g]) simp
  show ?thesis
  proof (cases r1)
    case (Inl e)
    then have "finallyClose env (Inl e) s1 = (r, s')"
      using assms g by (simp add: executeSearch_def)
    then have "steps (\<lambda>ev. True) s1 s'" by (rule finallyClose_steps) simp
    then show ?thesis using st1 steps_trans by blast
  next
    case (Inr u)
    then obtain exit c s2 where l: "searchLoop fuel env cfg 0 s1 = Some (exit, c, s2)"
      and al: "afterLoop env exit s2 = (r, s')"
      using assms g by (auto simp: executeSearch_def split: option.splits)
    have "steps (\<lambda>ev. True) s1 s2" by (rule searchLoop_steps [OF l]) simp
    moreover have "steps (\<lambda>ev. True) s2 s'" by (rule afterLoop_steps [OF al]) simp_all
    ultimately show ?thesis using st1 steps_trans by blast
  qed
qed

lemma runWebAgent_history:
  assumes "runWebAgent fuel env cfg = Some (r, s')"
  shows "actionHistory s' = planned (trace s')"
proof -
  obtain r0 s0 where i: "init env new_service = (r0, s0)" by (cases "init env new_service")
  have st0: "steps (\<lambda>ev. True) new_service s0" by (rule init_steps [OF i]) simp
  have "steps (\<lambda>ev. True) new_service s'"
  proof (cases r0)
    case (Inl e)
    then show ?thesis using assms i st0 by (simp add: runWebAgent_def)
  next
    case (Inr u)
    then have "executeSearch fuel env cfg s0 = Some (r, s')"
      using assms i by (simp add: runWebAgent_def)
    then show ?thesis using executeSearch_steps st0 steps_trans by blast
  qed
  then show ?thesis by (auto simp: steps_def new_service_def)
qed

text \<open>The answers of the model that validated against the schema.\<close>

lemma length_planned:
  "length (planned evs) = length (filter (\<lambda>ev. \<exists>object. ev = EvGenerate (Inr object)) evs)"
  by (induction evs rule: planned.induct) auto

lemma planAttempt_Inr:
  "planAttempt env cfg currentState s = (Inr a, s') \<Longrightarrow>
   actionHistory s' = actionHistory s @ [a] \<and> wellFormed a"
  by (auto simp: planAttempt_def Let_def callOnAction_def log_event_def wellFormed_def
      formatAction_def split: sum.splits option.splits prod.splits)

lemma planAttempt_Inl_quiet:
  assumes "onAction cfg = None \<or> (\<exists>sink. onAction cfg = Some sink \<and> (\<forall>a t. sink a t = Inr ()))"
    and "planAttempt env cfg currentState s = (Inl e, s')"
  shows "actionHistory s' = actionHistory s"
  using assms
  by (auto simp: planAttempt_def Let_def callOnAction_def log_event_def
      split: sum.splits option.splits prod.splits)

lemma retryFrom_history:
  "retryFrom n operation errorMessage i lastError s = (r, s') \<Longrightarrow>
   (\<forall>s a s'. operation s = (Inr a, s') \<longrightarrow> actionHistory s' = actionHistory s @ [a]) \<Longrightarrow>
   (\<forall>s e s'. operation s = (Inl e, s') \<longrightarrow> actionHistory s' = actionHistory s) \<Longrightarrow>
   (case r of Inr a \<Rightarrow> actionHistory s' = actionHistory s @ [a]
            | Inl e \<Rightarrow> actionHistory s' = actionHistory s)"
proof (induction n operation errorMessage i lastError s rule: retryFrom.induct)
  case (1 n operation errorMessage i lastError s)
  note ok = "1.prems"(2) and ko = "1.prems"(3)
  show ?case
  proof (cases "i < n")
    case False
    with "1.prems"(1) show ?thesis by (auto simp: retryFrom_done)
  next
    case True
    obtain r1 s1 where o: "operation s = (r1, s1)" by (cases "operation s")
    show ?thesis
    proof (cases r1)
      case (Inr v)
      with True o "1.prems"(1) ok show ?thesis by (auto simp: retryFrom_ok)
    next
      case (Inl e)
      have rec: "retryFrom n operation errorMessage (i + 1) (Some e) (sleep (1000 * (i + 1)) s1) =
                   (r, s')"
        using True o Inl "1.prems"(1) by (simp add: retryFrom_fail)
      have "actionHistory s1 = actionHistory s" using ko o Inl by blast
      then have h: "actionHistory (sleep (1000 * (i + 1)) s1) = actionHistory s"
        by (simp only: sleep_def log_event_def) simp
      show ?thesis using "1.IH" [OF True o [symmetric] Inl rec ok ko] unfolding h .
    qed
  qed
qed

lemma getNextAction_Inr:
  assumes "getNextAction env cfg currentState s = (Inr a, s')"
  shows "actionHistory s' \<noteq> [] \<and> last (actionHistory s') = a \<and> wellFormed a"
proof -
  have "retryFrom maxRetries (planAttempt env cfg currentState)
      ''Failed to get next action from LLM'' 0 None s = (Inr a, s')"
    using assms by (simp add: getNextAction_def retryOperation_def)
  then have "\<exists>s0. planAttempt env cfg currentState s0 = (Inr a, s')"
    by (rule retryFrom_Inr)
  then obtain s0 where "planAttempt env cfg currentState s0 = (Inr a, s')" ..
  then show ?thesis using planAttempt_Inr by fastforce
qed

lemma executeAction_history:
  assumes "executeAction env action s = (r, s')"
  shows "actionHistory s' = actionHistory s"
proof -
  let ?P = "\<lambda>ev. \<forall>object. ev \<noteq> EvGenerate (Inr object)"
  have "steps ?P s s'" by (rule executeAction_steps [OF assms]) simp_all
  then obtain evs where evs: "\<forall>ev\<in>set evs. ?P ev"
    "actionHistory s' = actionHistory s @ planned evs"
    unfolding steps_def list_all_iff by blast
  have "planned evs = []" by (rule planned_none) (use evs(1) in blast)
  then show ?thesis using evs(2) by simp
qed

text \<open>
  C2, amended: the history holds, in order, one entry \<open>TOOL: instruction\<close> for every answer
  of the model that validated against the schema, so its length is the number of those
  answers. When the progress sink is absent or never fails, a planning call that returns
  adds exactly one entry and one that fails adds none. The entry of a planned action is
  the last of the history when the planning call returns, before execution is attempted,
  and executing the action, successfully or not, leaves the history as it is.
\<close>

theorem history_records_every_answer:
  "(runWebAgent fuel env cfg = Some (r, s') \<longrightarrow>
      actionHistory s' = planned (trace s') \<and>
      length (actionHistory s') =
        length (filter (\<lambda>ev. \<exists>object. ev = EvGenerate (Inr object)) (trace s')) \<and>
      (\<forall>a\<in>set (actionHistory s'). wellFormed a)) \<and>
   ((onAction cfg = None \<or> (\<exists>sink. onAction cfg = Some sink \<and> (\<forall>a t. sink a t = Inr ()))) \<and>
    getNextAction env cfg pageState s = (p, s1) \<longrightarrow>
      (case p of Inr a \<Rightarrow> actionHistory s1 = actionHistory s @ [a] \<and> wellFormed a
               | Inl e \<Rightarrow> actionHistory s1 = actionHistory s)) \<and>
   (getNextAction env cfg pageState s = (Inr nextAction, s2) \<and>
    executeAction env nextAction s2 = (x, s3) \<longrightarrow>
      actionHistory s2 \<noteq> [] \<and> last (actionHistory s2) = nextAction \<and>
      actionHistory s3 = actionHistory s2)"
proof -
  have A: "runWebAgent fuel env cfg = Some (r, s') \<longrightarrow>
      actionHistory s' = planned (trace s') \<and>
      length (actionHistory s') =
        length (filter (\<lambda>ev. \<exists>object. ev = EvGenerate (Inr object)) (trace s')) \<and>
      (\<forall>a\<in>set (actionHistory s'). wellFormed a)"
  proof
    assume "runWebAgent fuel env cfg = Some (r, s')"
    then have h: "actionHistory s' = planned (trace s')" by (rule runWebAgent_history)
    show "actionHistory s' = planned (trace s') \<and>
      length (actionHistory s') =
        length (filter (\<lambda>ev. \<exists>object. ev = EvGenerate (Inr object)) (trace s')) \<and>
      (\<forall>a\<in>set (actionHistory s'). wellFormed a)"
      unfolding h using length_planned planned_wellFormed by blast
  qed
  have B: "(onAction cfg = None \<or> (\<exists>sink. onAction cfg = Some sink \<and> (\<forall>a t. sink a t = Inr ()))) \<and>
    getNextAction env cfg pageState s = (p, s1) \<longrightarrow>
      (case p of Inr a \<Rightarrow> actionHistory s1 = actionHistory s @ [a] \<and> wellFormed a
               | Inl e \<Rightarrow> actionHistory s1 = actionHistory s)"
  proof
    assume a: "(onAction cfg = None \<or> (\<exists>sink. onAction cfg = Some sink \<and> (\<forall>a t. sink a t = Inr ()))) \<and>
      getNextAction env cfg pageState s = (p, s1)"
    then have g: "retryFrom maxRetries (planAttempt env cfg pageState)
        ''Failed to get next action from LLM'' 0 None s = (p, s1)"
      by (simp add: getNextAction_def retryOperation_def)
    have ok: "\<forall>s a s'. planAttempt env cfg pageState s = (Inr a, s') \<longrightarrow>
        actionHistory s' = actionHistory s @ [a]"
      using planAttempt_Inr by blast
    have ko: "\<forall>s e s'. planAttempt env cfg pageState s = (Inl e, s') \<longrightarrow>
        actionHistory s' = actionHistory s"
      using planAttempt_Inl_quiet a by blast
    have h: "case p of Inr a \<Rightarrow> actionHistory s1 = actionHistory s @ [a]
                     | Inl e \<Rightarrow> actionHistory s1 = actionHistory s"
      by (rule retryFrom_history [OF g ok ko])
    show "case p of Inr a \<Rightarrow> actionHistory s1 = actionHistory s @ [a] \<and> wellFormed a
                  | Inl e \<Rightarrow> actionHistory s1 = actionHistory s"
    proof (cases p)
      case (Inl e)
      then show ?thesis using h by simp
    next
      case (Inr b)
      then have "wellFormed b" using a getNextAction_Inr by blast
      then show ?thesis using h Inr by simp
    qed
  qed
  have C: "getNextAction env cfg pageState s = (Inr nextAction, s2) \<and>
    executeAction env nextAction s2 = (x, s3) \<longrightarrow>
      actionHistory s2 \<noteq> [] \<and> last (actionHistory s2) = nextAction \<and>
      actionHistory s3 = actionHistory s2"
    using getNextAction_Inr executeAction_history by blast
  show ?thesis by (rule conjI [OF A conjI [OF B C]])
qed

theorem history_records_every_answer_witness:
  "runWebAgent 3 env_ok cfg_plain =
     Some (Inr [''Dr. Ada''],
       \<lparr>actionHistory = [''ACT: click search'', ''ACT: click search'', ''CLOSE: session complete''],
        trace = [EvInit, EvGoto ''https://www.uhc.com/find-a-doctor'',
                 EvObserve, EvGenerate (Inr (ACT, ''click search'')),
                 EvAct ''ACT: click search'', EvSleep 1000,
                 EvObserve, EvGenerate (Inr (ACT, ''click search'')),
                 EvAct ''ACT: click search'', EvSleep 1000,
                 EvObserve, EvGenerate (Inr (CLOSE, ''session complete'')),
                 EvExtract, EvClose]\<rparr>) \<and>
   getNextAction env_hang cfg_plain ''search form'' new_service =
     (Inr ''ACT: click search'',
      \<lparr>actionHistory = [''ACT: click search''],
       trace = [EvGenerate (Inr (ACT, ''click search''))]\<rparr>) \<and>
   actionHistory (snd (executeAction env_hang ''ACT: click search''
      \<lparr>actionHistory = [''ACT: click search''],
       trace = [EvGenerate (Inr (ACT, ''click search''))]\<rparr>)) = [''ACT: click search''] \<and>
   wellFormed ''ACT: click search''"
proof -
  let ?a = "''ACT: click search''"
  let ?s_ok = "\<lparr>actionHistory = [?a, ?a, ''CLOSE: session complete''],
        trace = [EvInit, EvGoto ''https://www.uhc.com/find-a-doctor'',
                 EvObserve, EvGenerate (Inr (ACT, ''click search'')),
                 EvAct ?a, EvSleep 1000,
                 EvObserve, EvGenerate (Inr (ACT, ''click search'')),
                 EvAct ?a, EvSleep 1000,
                 EvObserve, EvGenerate (Inr (CLOSE, ''session complete'')),
                 EvExtract, EvClose]\<rparr>"
  let ?s2 = "\<lparr>actionHistory = [?a], trace = [EvGenerate (Inr (ACT, ''click search''))]\<rparr>"
  let ?x = "executeAction env_hang ?a ?s2"
  have r_ok: "runWebAgent 3 env_ok cfg_plain = Some (Inr [''Dr. Ada''], ?s_ok)"
    by (simp add: eval_defs)
  have sink: "onAction cfg_plain = None \<or>
      (\<exists>sink. onAction cfg_plain = Some sink \<and> (\<forall>a t. sink a t = Inr ()))"
    by (simp add: cfg_plain_def)
  have g: "getNextAction env_hang cfg_plain ''search form'' new_service = (Inr ?a, ?s2)"
    by (simp add: eval_defs)
  have x: "executeAction env_hang ?a ?s2 = (fst ?x, snd ?x)" by simp
  have 1: "actionHistory ?s_ok = planned (trace ?s_ok)"
    using history_records_every_answer [where env = env_ok and cfg = cfg_plain and fuel = 3
        and r = "Inr [''Dr. Ada'']" and s' = ?s_ok] r_ok by blast
  have 2: "actionHistory ?s2 = actionHistory new_service @ [?a] \<and> wellFormed ?a"
    using history_records_every_answer [where env = env_hang and cfg = cfg_plain
        and pageState = "''search form''" and s = new_service and p = "Inr ?a" and ?s1.0 = ?s2]
      sink g by simp
  have 3: "actionHistory (snd ?x) = actionHistory ?s2"
    using history_records_every_answer [where env = env_hang and cfg = cfg_plain
        and pageState = "''search form''" and s = new_service and nextAction = ?a
        and ?s2.0 = ?s2 and x = "fst ?x" and ?s3.0 = "snd ?x"] g x by blast
  show ?thesis using r_ok g 1 2 3 by simp
qed

text \<open>
  The claim as stated fails when the progress sink rejects once: the planning call is
  retried, the model is asked again, and the call that then returns has left two entries.
\<close>

theorem history_after_sink_failure_counterexample:
  "getNextAction env_ok cfg_sink_flaky ''search form'' new_service =
     (Inr ''ACT: click search'',
      \<lparr>actionHistory = [''ACT: click search'', ''ACT: click search''],
       trace = [EvGenerate (Inr (ACT, ''click search'')), EvOnAction ''ACT: click search'',
                EvSleep 1000,
                EvGenerate (Inr (ACT, ''click search'')), EvOnAction ''ACT: click search'']\<rparr>) \<and>
   length [''ACT: click search'', ''ACT: click search''] \<noteq> 1"
  by (simp add: eval_defs)

section \<open>The diagnostic screenshot\<close>




section \<open>The progress sink\<close>







section \<open>Zero coordinates in the request validator\<close>

text \<open>
  C10, amended: a request whose location has latitude 0 or longitude 0, or an empty or
  missing address, is rejected. The error is \<open>Invalid location: ...\<close> when the query,
  the provider and the location are present (truthy); otherwise the check of the required
  fields, which comes first, rejects the request with \<open>Missing required fields: ...\<close>.
\<close>

theorem validateRequest_zero_coordinate:
  assumes "getProp (getProp body ''location'') ''lat'' = JNum (Finite 0) \<or>
           getProp (getProp body ''location'') ''lng'' = JNum (Finite 0) \<or>
           getProp (getProp body ''location'') ''address'' = JStr [] \<or>
           body \<noteq> JNull \<and> body \<noteq> JUndefined \<and>
             getProp (getProp body ''location'') ''address'' = JUndefined"
  shows "validateRequest body =
           Inr \<lparr>isValid = False,
                error = Some
                  (if truthy (getProp body ''query'') \<and> truthy (getProp body ''provider'') \<and>
                      truthy (getProp body ''location'')
                   then ''Invalid location: latitude, longitude, and address are required''
                   else ''Missing required fields: query, provider, and location are required'')\<rparr>"
proof -
  have nn: "body \<noteq> JNull \<and> body \<noteq> JUndefined" using assms by auto
  have falsy: "\<not> truthy (getProp (getProp body ''location'') ''lat'') \<or>
               \<not> truthy (getProp (getProp body ''location'') ''lng'') \<or>
               \<not> truthy (getProp (getProp body ''location'') ''address'')"
    using assms by auto
  show ?thesis
  proof (cases "truthy (getProp body ''query'') \<and> truthy (getProp body ''provider'') \<and>
      truthy (getProp body ''location'')")
    case False
    then show ?thesis using nn by (auto simp: validateRequest_def)
  next
    case True
    then show ?thesis using nn falsy by (auto simp: validateRequest_def Let_def)
  qed
qed

theorem validateRequest_zero_coordinate_witness:
  "validateRequest request_equator =
     Inr \<lparr>isValid = False,
          error = Some ''Invalid location: latitude, longitude, and address are required''\<rparr>"
proof -
  have h: "getProp (getProp request_equator ''location'') ''lat'' = JNum (Finite 0)"
    by (simp add: request_equator_def)
  have t: "truthy (getProp request_equator ''query'') \<and>
           truthy (getProp request_equator ''provider'') \<and>
           truthy (getProp request_equator ''location'')"
    by (simp add: request_equator_def)
  show ?thesis
    using validateRequest_zero_coordinate [of request_equator] h t by simp
qed

text \<open>
  The claim as stated fails for a request with latitude 0 and an empty query: it is
  rejected, but with the error of the required-fields check.
\<close>

theorem validateRequest_no_query_counterexample:
  "getProp (getProp request_equator_no_query ''location'') ''lat'' = JNum (Finite 0) \<and>
   validateRequest request_equator_no_query =
     Inr \<lparr>isValid = False,
          error = Some ''Missing required fields: query, provider, and location are required''\<rparr> \<and>
   validateRequest request_equator_no_query \<noteq>
     Inr \<lparr>isValid = False,
          error = Some ''Invalid location: latitude, longitude, and address are required''\<rparr>"
  by (simp add: request_equator_no_query_def validateRequest_def)

end
